theory Spec2Isabelle
  imports Main
begin

section \<open>Values, documents and exceptions\<close>

text \<open>
  The mirroring script (\<^verbatim>\<open>send_remote_server.py\<close>) and the remote store accessor
  (\<^verbatim>\<open>libs3/RemoteMongoConnector.py\<close>) handle MongoDB documents, which Python sees as
  dictionaries from field names to values. A document is an association list, in the
  order of its fields; the values that matter here are strings and integers.
\<close>

datatype val = VStr string | VInt int

type_synonym doc = "(string \<times> val) list"

text \<open>
  The Python exceptions that can travel through the modelled code. \<open>AutoReconnect\<close> is
  \<^verbatim>\<open>pymongo.errors.AutoReconnect\<close>, the transient disconnect; \<open>OperationFailure\<close> stands
  for every other error of the store; \<open>NoSectionError\<close>, \<open>NoOptionError\<close> and
  \<open>ConfigParserError\<close> are \<^verbatim>\<open>configparser.Error\<close> and its subclasses (the last one any
  subclass other than the first two); \<open>SystemExit n\<close> is what \<^verbatim>\<open>exit(n)\<close> raises, and
  \<open>n\<close> is the exit status of the process when nothing catches it.
\<close>

datatype exn =
    AutoReconnect
  | OperationFailure
  | NoSectionError
  | NoOptionError
  | ConfigParserError
  | ValueError
  | TypeError
  | KeyError string
  | SystemExit int

section \<open>The retrying query executor\<close>

text \<open>
  \<^verbatim>\<open>perform_find\<close>, \<^verbatim>\<open>perform_find_one\<close>, \<^verbatim>\<open>perform_count\<close> and \<^verbatim>\<open>perform_distinct\<close>
  receive a collection object from their caller and call one method of it in a loop.
  What a call does is up to the object, so the object is modelled by the outcome of
  each of its methods at the \<open>k\<close>-th store call of the run: a result, or an exception.
  The second argument of \<open>coll_find\<close>, \<open>coll_find_one\<close> and \<open>coll_distinct\<close> is \<open>None\<close>
  when the Python call leaves the optional argument out. \<open>coll_count q k\<close> is the
  outcome of the expression \<^verbatim>\<open>collection.find(query).count()\<close>.
\<close>

record collection =
  coll_find :: "doc \<Rightarrow> doc option \<Rightarrow> nat \<Rightarrow> exn + doc list"
  coll_find_one :: "doc \<Rightarrow> doc option \<Rightarrow> nat \<Rightarrow> exn + doc option"
  coll_count :: "doc \<Rightarrow> nat \<Rightarrow> exn + int"
  coll_distinct :: "string \<Rightarrow> doc option \<Rightarrow> nat \<Rightarrow> exn + val list"

text \<open>
  The state the executor changes outside its own variables: how many store calls have
  been made, and the arguments of the \<^verbatim>\<open>time.sleep\<close> calls so far, oldest first. The
  messages printed on the way are not modelled.
\<close>

record exec_state =
  calls :: nat
  slept :: "nat list"

definition tick :: "exec_state \<Rightarrow> exec_state" where
  "tick st = st\<lparr>calls := Suc (calls st)\<rparr>"

definition sleep :: "nat \<Rightarrow> exec_state \<Rightarrow> exec_state" where
  "sleep n st = st\<lparr>slept := slept st @ [n]\<rparr>"

text \<open>
  The loop of the four functions is the same text but for the call inside \<^verbatim>\<open>try\<close>:
  \<^verbatim>\<open>
    success = False
    num_tries = 0
    while not success:
        try:
            result = <call>
            success = True
        except AutoReconnect:
            if num_tries < 5:
                print("Warning: Failed to connect to the database. Retrying.")
                time.sleep(5)
                num_tries = num_tries + 1
            else:
                print("ERROR: Exceeded the max number of connection attempts to MongoDB!")
                exit(1)
    return result
  \<close>
  \<open>retry_loop attempt num_tries st\<close> is the loop from its head, with \<open>attempt k\<close> the
  outcome of the call when it is the \<open>k\<close>-th store call. An exception other than
  \<open>AutoReconnect\<close> is not caught and leaves the function.
\<close>

function retry_loop :: "(nat \<Rightarrow> exn + 'a) \<Rightarrow> nat \<Rightarrow> exec_state \<Rightarrow> (exn + 'a) \<times> exec_state" where
  "retry_loop attempt num_tries st =
     (case attempt (calls st) of
        Inr result \<Rightarrow> (Inr result, tick st)
      | Inl e \<Rightarrow>
          if e = AutoReconnect then
            if num_tries < 5 then retry_loop attempt (num_tries + 1) (sleep 5 (tick st))
            else (Inl (SystemExit 1), tick st)
          else (Inl e, tick st))"
  by pat_completeness auto
termination
  by (relation "measure (\<lambda>(attempt, num_tries, st). 5 - num_tries)") auto

declare retry_loop.simps [simp del]

definition perform_find ::
  "collection \<Rightarrow> doc \<Rightarrow> doc option \<Rightarrow> exec_state \<Rightarrow> (exn + doc list) \<times> exec_state" where
  "perform_find collection query filter_arg st =
     retry_loop
       (\<lambda>k. case filter_arg of
               Some f \<Rightarrow> coll_find collection query (Some f) k
             | None \<Rightarrow> coll_find collection query None k)
       0 st"

definition perform_find_one ::
  "collection \<Rightarrow> doc \<Rightarrow> doc option \<Rightarrow> exec_state \<Rightarrow> (exn + doc option) \<times> exec_state" where
  "perform_find_one collection query filter_arg st =
     retry_loop
       (\<lambda>k. case filter_arg of
               Some f \<Rightarrow> coll_find_one collection query (Some f) k
             | None \<Rightarrow> coll_find_one collection query None k)
       0 st"

definition perform_count ::
  "collection \<Rightarrow> doc \<Rightarrow> exec_state \<Rightarrow> (exn + int) \<times> exec_state" where
  "perform_count collection query st =
     retry_loop (\<lambda>k. coll_count collection query k) 0 st"

definition perform_distinct ::
  "collection \<Rightarrow> string \<Rightarrow> doc option \<Rightarrow> exec_state \<Rightarrow> (exn + val list) \<times> exec_state" where
  "perform_distinct collection field query st =
     retry_loop
       (\<lambda>k. case query of
               Some q \<Rightarrow> coll_distinct collection field (Some q) k
             | None \<Rightarrow> coll_distinct collection field None k)
       0 st"

text \<open>
  A collection whose first \<open>n\<close> store calls raise \<open>AutoReconnect\<close> and whose later
  calls answer from the documents \<open>ds\<close>; used to run the executor on concrete input.
\<close>

definition flaky :: "nat \<Rightarrow> doc list \<Rightarrow> collection" where
  "flaky n ds =
     \<lparr>coll_find = (\<lambda>q f k. if k < n then Inl AutoReconnect else Inr ds),
      coll_find_one = (\<lambda>q f k. if k < n then Inl AutoReconnect
                                else Inr (case ds of [] \<Rightarrow> None | d # _ \<Rightarrow> Some d)),
      coll_count = (\<lambda>q k. if k < n then Inl AutoReconnect else Inr (int (length ds))),
      coll_distinct = (\<lambda>fld q k. if k < n then Inl AutoReconnect
                                  else Inr (remdups (concat (map (\<lambda>d. case map_of d fld of
                                         None \<Rightarrow> [] | Some v \<Rightarrow> [v]) ds))))\<rparr>"

definition fresh :: exec_state where
  "fresh = \<lparr>calls = 0, slept = []\<rparr>"

section \<open>Configuration lookup and the accessor's constructor\<close>

text \<open>
  The \<^verbatim>\<open>ConfigParser\<close> object is used through \<^verbatim>\<open>get(section, key)\<close> and
  \<^verbatim>\<open>getboolean(section, key)\<close> only. It belongs to the Python library, so it is a
  parameter of the model: an object with these two methods, each returning a value or
  raising. \<^verbatim>\<open>getboolean\<close> raises \<open>ValueError\<close>, which is not a \<^verbatim>\<open>configparser.Error\<close>,
  on a value that is not a boolean word.
\<close>

record config =
  cfg_get :: "string \<Rightarrow> string \<Rightarrow> exn + string"
  cfg_getboolean :: "string \<Rightarrow> string \<Rightarrow> exn + bool"

text \<open>
  What \<^verbatim>\<open>_get_config_setting\<close> can return: a string, a boolean, or the integer \<open>0\<close>.
\<close>

datatype setting = SStr string | SBool bool | SInt int

text \<open>
  \<^verbatim>\<open>_get_config_setting(config, section, key, type='str')\<close>. The three \<^verbatim>\<open>except\<close>
  clauses are tried in the order of the source; an exception that is none of them
  leaves the function.
\<close>

definition get_config_setting :: "config \<Rightarrow> string \<Rightarrow> string \<Rightarrow> string \<Rightarrow> exn + setting" where
  "get_config_setting config section key type =
     (case (if type = ''boolean'' then map_sum id SBool (cfg_getboolean config section key)
            else map_sum id SStr (cfg_get config section key)) of
        Inr result \<Rightarrow> Inr result
      | Inl e \<Rightarrow>
          if e = NoSectionError then
            (if type = ''boolean'' then Inr (SInt 0) else Inr (SStr ''''))
          else if e = NoOptionError then
            (if type = ''boolean'' then Inr (SInt 0) else Inr (SStr ''''))
          else if e = ConfigParserError then
            (if type = ''boolean'' then Inr (SInt 0) else Inr (SStr ''''))
          else Inl e)"

text \<open>
  A \<^verbatim>\<open>MongoClient(...)\<close> call, recorded with its arguments: every such call is an
  attempt to connect. What pymongo does with the arguments is outside the model.
\<close>

record client =
  uri :: string
  ssl :: bool
  ssl_ca_certs :: "setting option"

text \<open>
  The accessor object with its three attributes; \<open>m_connection\<close> is the database
  \<^verbatim>\<open>client[name]\<close>. The environment of the constructor: what \<^verbatim>\<open>config.read(file)\<close>
  finds under a file name, and the clients created so far.
\<close>

record connector =
  mongo_config_file :: string
  debug :: bool
  m_connection :: "(client \<times> string) option"

datatype config_file = Unreadable | Malformed | Parsed config

record env =
  files :: "string \<Rightarrow> config_file"
  clients :: "client list"

text \<open>
  String concatenation with \<^verbatim>\<open>+\<close>, left to right, and the slice \<^verbatim>\<open>path[1:]\<close>. The
  operands here are results of \<^verbatim>\<open>_get_config_setting\<close> with the default type, hence
  strings; on anything else Python raises \<open>TypeError\<close>.
\<close>

fun py_concat :: "setting list \<Rightarrow> exn + string" where
  "py_concat [] = Inr []"
| "py_concat (SStr s # rest) =
     (case py_concat rest of Inl e \<Rightarrow> Inl e | Inr t \<Rightarrow> Inr (s @ t))"
| "py_concat (_ # rest) = Inl TypeError"

fun py_slice_from_1 :: "setting \<Rightarrow> exn + string" where
  "py_slice_from_1 (SStr s) = Inr (tl s)"
| "py_slice_from_1 _ = Inl TypeError"

definition MongoClient :: "string \<Rightarrow> bool \<Rightarrow> setting option \<Rightarrow> env \<Rightarrow> client \<times> env" where
  "MongoClient connection_string use_ssl ca env =
     (let c = \<lparr>uri = connection_string, ssl = use_ssl, ssl_ca_certs = ca\<rparr>
      in (c, env\<lparr>clients := clients env @ [c]\<rparr>))"

definition init_mongo_connection :: "connector \<Rightarrow> config \<Rightarrow> env \<Rightarrow> (exn + connector) \<times> env" where
  "init_mongo_connection self config env =
     (case get_config_setting config ''RemoteMongoDB'' ''mongo.protocol'' ''str'' of
        Inl e \<Rightarrow> (Inl e, env) | Inr protocol \<Rightarrow>
     (case get_config_setting config ''RemoteMongoDB'' ''mongo.host'' ''str'' of
        Inl e \<Rightarrow> (Inl e, env) | Inr endpoint \<Rightarrow>
     (case get_config_setting config ''RemoteMongoDB'' ''mongo.path'' ''str'' of
        Inl e \<Rightarrow> (Inl e, env) | Inr path \<Rightarrow>
     (case get_config_setting config ''RemoteMongoDB'' ''mongo.username'' ''str'' of
        Inl e \<Rightarrow> (Inl e, env) | Inr username \<Rightarrow>
     (case get_config_setting config ''RemoteMongoDB'' ''mongo.password'' ''str'' of
        Inl e \<Rightarrow> (Inl e, env) | Inr password \<Rightarrow>
     (case get_config_setting config ''RemoteMongoDB'' ''mongo.ca_cert'' ''str'' of
        Inl e \<Rightarrow> (Inl e, env) | Inr cacert \<Rightarrow>
     (case (if username \<noteq> SStr '''' \<and> password \<noteq> SStr ''''
            then py_concat [protocol, username, SStr '':'', password, SStr ''@'', endpoint, path]
            else py_concat [protocol, endpoint, path]) of
        Inl e \<Rightarrow> (Inl e, env) | Inr connection_string \<Rightarrow>
     (let (client, env1) =
            (if cacert \<noteq> SStr '''' then MongoClient connection_string True (Some cacert) env
             else MongoClient connection_string False None env)
      in case py_slice_from_1 path of
           Inl e \<Rightarrow> (Inl e, env1)
         | Inr name \<Rightarrow> (Inr (self\<lparr>m_connection := Some (client, name)\<rparr>), env1)))))))))"

text \<open>
  \<^verbatim>\<open>__init__(self, config_file="", debug=False)\<close>. \<^verbatim>\<open>config.read\<close> skips a file it
  cannot open and returns the list of the files it has read, so a missing or unreadable
  file gives the empty list; a file it can open and cannot parse makes it raise.
\<close>

definition RemoteMongoConnector_init :: "string \<Rightarrow> bool \<Rightarrow> env \<Rightarrow> (exn + connector) \<times> env" where
  "RemoteMongoConnector_init config_file debug_arg env =
     (let self0 = \<lparr>mongo_config_file = ''connector.config'', debug = False, m_connection = None\<rparr>;
          self1 = (if config_file \<noteq> '''' then self0\<lparr>mongo_config_file := config_file\<rparr> else self0);
          self2 = self1\<lparr>debug := debug_arg\<rparr>
      in case files env (mongo_config_file self2) of
           Unreadable \<Rightarrow> (Inl (SystemExit 0), env)
         | Malformed \<Rightarrow> (Inl ConfigParserError, env)
         | Parsed config \<Rightarrow> init_mongo_connection self2 config env)"




section \<open>The two stores of a mirror run\<close>

text \<open>
  A store holds named collections, each a list of documents in insertion order. The
  store itself is not code of the repository (it is MongoDB behind pymongo); its
  operations are the ones the script calls, as section 6 of the spec lists them:
  \<^verbatim>\<open>find(query, projection)\<close>, \<^verbatim>\<open>remove(query)\<close> and \<^verbatim>\<open>insert(document)\<close>. A
  query is a document of required field values (\<^verbatim>\<open>{}\<close> matches everything,
  \<^verbatim>\<open>{'zone': z}\<close> the documents whose field \<^verbatim>\<open>zone\<close> is \<open>z\<close>); a projection lists the
  fields to leave out with value \<open>0\<close> (\<^verbatim>\<open>{"_id": 0}\<close>). The identifier a store gives a
  document that has none is not modelled: documents are compared as the script hands
  them over.

  Each operation sent to a store can fail. The \<open>script\<close> of a store fixes the outcome
  of its next operations, one entry each; when it is used up, operations succeed.
\<close>

datatype fault = NoFault | Disconnect | Failure

record store =
  colls :: "string \<Rightarrow> doc list"
  script :: "fault list"

datatype side = Primary | Remote

type_synonym handle = "side \<times> string"

datatype op = Find doc "doc option" | Remove doc | Insert doc

type_synonym event = "side \<times> string \<times> op"

datatype job_state = NotStarted | Running | Completed

text \<open>
  The world of a run: the primary store (read), the remote store (written), every
  operation sent to either store so far in the order sent, and the job record.
\<close>

record world =
  primary :: store
  remote :: store
  oplog :: "event list"
  job :: job_state

definition matches :: "doc \<Rightarrow> doc \<Rightarrow> bool" where
  "matches query d = list_all (\<lambda>(k, v). map_of d k = Some v) query"

definition project :: "doc option \<Rightarrow> doc \<Rightarrow> doc" where
  "project projection d =
     (case projection of
        None \<Rightarrow> d
      | Some p \<Rightarrow> filter (\<lambda>(k, v). map_of p k \<noteq> Some (VInt 0)) d)"

definition get_store :: "side \<Rightarrow> world \<Rightarrow> store" where
  "get_store s w = (case s of Primary \<Rightarrow> primary w | Remote \<Rightarrow> remote w)"

definition put_store :: "side \<Rightarrow> store \<Rightarrow> world \<Rightarrow> world" where
  "put_store s st w = (case s of Primary \<Rightarrow> w\<lparr>primary := st\<rparr> | Remote \<Rightarrow> w\<lparr>remote := st\<rparr>)"

definition next_fault :: "store \<Rightarrow> fault \<times> store" where
  "next_fault st = (case script st of [] \<Rightarrow> (NoFault, st) | f # fs \<Rightarrow> (f, st\<lparr>script := fs\<rparr>))"

definition apply_op :: "op \<Rightarrow> doc list \<Rightarrow> doc list \<times> doc list" where
  "apply_op operation ds =
     (case operation of
        Find q p \<Rightarrow> (map (project p) (filter (matches q) ds), ds)
      | Remove q \<Rightarrow> ([], filter (\<lambda>d. \<not> matches q d) ds)
      | Insert d \<Rightarrow> ([], ds @ [d]))"

text \<open>
  One operation sent to the collection behind a handle: it is logged, the store's next
  outcome is taken, and on success the collection is read or changed. A failed
  operation changes no collection.
\<close>

definition run_op :: "handle \<Rightarrow> op \<Rightarrow> world \<Rightarrow> (exn + doc list) \<times> world" where
  "run_op h operation w =
     (let (f, st) = next_fault (get_store (fst h) w);
          w1 = (put_store (fst h) st w)\<lparr>oplog := oplog w @ [(fst h, snd h, operation)]\<rparr>
      in case f of
           Disconnect \<Rightarrow> (Inl AutoReconnect, w1)
         | Failure \<Rightarrow> (Inl OperationFailure, w1)
         | NoFault \<Rightarrow>
             (let (answer, ds) = apply_op operation (colls st (snd h))
              in (Inr answer, put_store (fst h) (st\<lparr>colls := (colls st)(snd h := ds)\<rparr>) w1)))"

text \<open>
  Sequencing: the rest of a function runs only when what came before raised nothing.
\<close>

definition and_then ::
  "(exn + 'a) \<times> world \<Rightarrow> ('a \<Rightarrow> world \<Rightarrow> (exn + 'b) \<times> world) \<Rightarrow> (exn + 'b) \<times> world" where
  "and_then r f = (case r of (Inl e, w) \<Rightarrow> (Inl e, w) | (Inr x, w) \<Rightarrow> f x w)"

text \<open>
  \<^verbatim>\<open>collection.find(query, projection)\<close> returns a lazy cursor: nothing is sent to the
  store until the cursor is iterated. \<^verbatim>\<open>batch_size(n)\<close> sets the size of the batches and
  returns the cursor. The model reads all the documents of a cursor in one operation,
  when the \<^verbatim>\<open>for\<close> loop over it starts.
\<close>

record cursor =
  cur_handle :: handle
  cur_query :: doc
  cur_projection :: "doc option"
  cur_batch_size :: "nat option"

definition db_find :: "handle \<Rightarrow> doc \<Rightarrow> doc option \<Rightarrow> cursor" where
  "db_find h query projection =
     \<lparr>cur_handle = h, cur_query = query, cur_projection = projection, cur_batch_size = None\<rparr>"

definition batch_size :: "nat \<Rightarrow> cursor \<Rightarrow> cursor" where
  "batch_size n c = c\<lparr>cur_batch_size := Some n\<rparr>"

definition cursor_fetch :: "cursor \<Rightarrow> world \<Rightarrow> (exn + doc list) \<times> world" where
  "cursor_fetch c w = run_op (cur_handle c) (Find (cur_query c) (cur_projection c)) w"

definition db_remove :: "handle \<Rightarrow> doc \<Rightarrow> world \<Rightarrow> (exn + unit) \<times> world" where
  "db_remove h query w = and_then (run_op h (Remove query) w) (\<lambda>_ w1. (Inr (), w1))"

definition db_insert :: "handle \<Rightarrow> doc \<Rightarrow> world \<Rightarrow> (exn + unit) \<times> world" where
  "db_insert h d w = and_then (run_op h (Insert d) w) (\<lambda>_ w1. (Inr (), w1))"

text \<open>
  The accessors resolve names to collection handles. The getters of the remote accessor
  are those of \<^verbatim>\<open>RemoteMongoConnector\<close>, each \<^verbatim>\<open>return self.m_connection.<name>\<close>.

  Modelled from the spec: the primary accessor \<^verbatim>\<open>MongoConnector\<close> is not among the
  sources; by the spec it is name resolution only, with the same collection names
  (zones, ip zones, ipv6 zones, config, DNS records, per-provider CIDR collections),
  so the getters below serve both sides.
\<close>

definition get_zone_connection :: "side \<Rightarrow> handle" where
  "get_zone_connection c = (c, ''zones'')"

definition get_ipzone_connection :: "side \<Rightarrow> handle" where
  "get_ipzone_connection c = (c, ''ip_zones'')"

definition get_ipv6_zone_connection :: "side \<Rightarrow> handle" where
  "get_ipv6_zone_connection c = (c, ''ipv6_zones'')"

definition get_config_connection :: "side \<Rightarrow> handle" where
  "get_config_connection c = (c, ''config'')"

definition get_aws_ips_connection :: "side \<Rightarrow> handle" where
  "get_aws_ips_connection c = (c, ''aws_ips'')"

definition get_azure_ips_connection :: "side \<Rightarrow> handle" where
  "get_azure_ips_connection c = (c, ''azure_ips'')"

definition get_akamai_ips_connection :: "side \<Rightarrow> handle" where
  "get_akamai_ips_connection c = (c, ''akamai_ips'')"

definition get_gcp_ips_connection :: "side \<Rightarrow> handle" where
  "get_gcp_ips_connection c = (c, ''gcp_ips'')"

definition get_all_dns_connection :: "side \<Rightarrow> handle" where
  "get_all_dns_connection c = (c, ''all_dns'')"

section \<open>The mirroring steps\<close>

text \<open>
  The loop \<^verbatim>\<open>for x in cursor: remote_collection.insert(x)\<close>, over the documents the
  cursor has given. An insert that raises ends the loop and the step; what was inserted
  before stays.
\<close>

fun insert_each :: "handle \<Rightarrow> doc list \<Rightarrow> world \<Rightarrow> (exn + unit) \<times> world" where
  "insert_each h [] w = (Inr (), w)"
| "insert_each h (d # ds) w = and_then (db_insert h d w) (\<lambda>_ w1. insert_each h ds w1)"

text \<open>
  The two loops of \<^verbatim>\<open>update_zones\<close>. \<^verbatim>\<open>zone['zone']\<close> raises \<open>KeyError\<close> on a document
  without that field.
\<close>

fun zones_insert_loop :: "handle \<Rightarrow> doc list \<Rightarrow> val list \<Rightarrow> world \<Rightarrow> (exn + val list) \<times> world" where
  "zones_insert_loop h [] zone_list w = (Inr zone_list, w)"
| "zones_insert_loop h (zone # rest) zone_list w =
     and_then (db_insert h zone w) (\<lambda>_ w1.
       case map_of zone ''zone'' of
         None \<Rightarrow> (Inl (KeyError ''zone''), w1)
       | Some z \<Rightarrow> zones_insert_loop h rest (zone_list @ [z]) w1)"

fun zones_list_loop :: "doc list \<Rightarrow> val list \<Rightarrow> exn + val list" where
  "zones_list_loop [] zone_list = Inr zone_list"
| "zones_list_loop (zone # rest) zone_list =
     (case map_of zone ''zone'' of
        None \<Rightarrow> Inl (KeyError ''zone'')
      | Some z \<Rightarrow> zones_list_loop rest (zone_list @ [z]))"

definition update_zones :: "side \<Rightarrow> side \<Rightarrow> bool \<Rightarrow> world \<Rightarrow> (exn + val list) \<times> world" where
  "update_zones mongo_connector rm_connector update_zone_list w =
     (let zones_collection = get_zone_connection mongo_connector;
          remote_zones_collection = get_zone_connection rm_connector;
          zones = db_find zones_collection [] (Some [(''_id'', VInt 0)]);
          zone_list = []
      in if update_zone_list then
           and_then (db_remove remote_zones_collection [] w) (\<lambda>_ w1.
           and_then (cursor_fetch zones w1) (\<lambda>ds w2.
             zones_insert_loop remote_zones_collection ds zone_list w2))
         else
           and_then (cursor_fetch zones w) (\<lambda>ds w1. (zones_list_loop ds zone_list, w1)))"

definition update_ip_zones :: "side \<Rightarrow> side \<Rightarrow> world \<Rightarrow> (exn + unit) \<times> world" where
  "update_ip_zones mongo_connector rm_connector w =
     (let ipzones_collection = get_ipzone_connection mongo_connector;
          remote_ipzones_collection = get_ipzone_connection rm_connector;
          ipzones = db_find ipzones_collection [] (Some [(''_id'', VInt 0)])
      in and_then (db_remove remote_ipzones_collection [] w) (\<lambda>_ w1.
         and_then (cursor_fetch ipzones w1) (\<lambda>ds w2.
         and_then (insert_each remote_ipzones_collection ds w2) (\<lambda>_ w3.
           (let ipv6_zones_collection = get_ipv6_zone_connection mongo_connector;
                remote_ipv6_zones_collection = get_ipv6_zone_connection rm_connector;
                ipv6_zones = db_find ipv6_zones_collection [] (Some [(''_id'', VInt 0)])
            in and_then (db_remove remote_ipv6_zones_collection [] w3) (\<lambda>_ w4.
               and_then (cursor_fetch ipv6_zones w4) (\<lambda>ds6 w5.
                 insert_each remote_ipv6_zones_collection ds6 w5)))))))"

definition update_config :: "side \<Rightarrow> side \<Rightarrow> world \<Rightarrow> (exn + unit) \<times> world" where
  "update_config mongo_connector rm_connector w =
     (let config_collection = get_config_connection mongo_connector;
          remote_config_collection = get_config_connection rm_connector;
          configs = db_find config_collection [] (Some [(''_id'', VInt 0)])
      in and_then (db_remove remote_config_collection [] w) (\<lambda>_ w1.
         and_then (cursor_fetch configs w1) (\<lambda>ds w2.
           insert_each remote_config_collection ds w2)))"

definition update_aws_cidrs :: "side \<Rightarrow> side \<Rightarrow> world \<Rightarrow> (exn + unit) \<times> world" where
  "update_aws_cidrs mongo_connector rm_connector w =
     (let aws_ips_collection = get_aws_ips_connection mongo_connector;
          remote_aws_ips_collection = get_aws_ips_connection rm_connector;
          aws_ips = db_find aws_ips_collection [] (Some [(''_id'', VInt 0)])
      in and_then (db_remove remote_aws_ips_collection [] w) (\<lambda>_ w1.
         and_then (cursor_fetch aws_ips w1) (\<lambda>ds w2.
           insert_each remote_aws_ips_collection ds w2)))"

definition update_azure_cidrs :: "side \<Rightarrow> side \<Rightarrow> world \<Rightarrow> (exn + unit) \<times> world" where
  "update_azure_cidrs mongo_connector rm_connector w =
     (let azure_ips_collection = get_azure_ips_connection mongo_connector;
          remote_azure_ips_collection = get_azure_ips_connection rm_connector;
          azure_ips = db_find azure_ips_collection [] (Some [(''_id'', VInt 0)])
      in and_then (db_remove remote_azure_ips_collection [] w) (\<lambda>_ w1.
         and_then (cursor_fetch azure_ips w1) (\<lambda>ds w2.
           insert_each remote_azure_ips_collection ds w2)))"

definition update_akamai_cidrs :: "side \<Rightarrow> side \<Rightarrow> world \<Rightarrow> (exn + unit) \<times> world" where
  "update_akamai_cidrs mongo_connector rm_connector w =
     (let akamai_ips_collection = get_akamai_ips_connection mongo_connector;
          remote_akamai_ips_collection = get_akamai_ips_connection rm_connector;
          akamai_ips = db_find akamai_ips_collection [] (Some [(''_id'', VInt 0)])
      in and_then (db_remove remote_akamai_ips_collection [] w) (\<lambda>_ w1.
         and_then (cursor_fetch akamai_ips w1) (\<lambda>ds w2.
           insert_each remote_akamai_ips_collection ds w2)))"

definition update_gcp_cidrs :: "side \<Rightarrow> side \<Rightarrow> world \<Rightarrow> (exn + unit) \<times> world" where
  "update_gcp_cidrs mongo_connector rm_connector w =
     (let gcp_ips_collection = get_gcp_ips_connection mongo_connector;
          remote_gcp_ips_collection = get_gcp_ips_connection rm_connector;
          gcp_ips = db_find gcp_ips_collection [] (Some [(''_id'', VInt 0)])
      in and_then (db_remove remote_gcp_ips_collection [] w) (\<lambda>_ w1.
         and_then (cursor_fetch gcp_ips w1) (\<lambda>ds w2.
           insert_each remote_gcp_ips_collection ds w2)))"

text \<open>
  \<^verbatim>\<open>update_all_dns\<close>: the body of its loop for one zone, and the loop over the zone list.
  \<^verbatim>\<open>
    for zone in zone_list:
        all_dns = all_dns_collection.find({'zone': zone}, {"_id": 0}).batch_size(50)
        remote_all_dns_collection.remove({'zone': zone})
        for ip_addr in all_dns:
            remote_all_dns_collection.insert(ip_addr)
  \<close>
\<close>

definition update_all_dns_zone :: "handle \<Rightarrow> handle \<Rightarrow> val \<Rightarrow> world \<Rightarrow> (exn + unit) \<times> world" where
  "update_all_dns_zone all_dns_collection remote_all_dns_collection zone w =
     (let all_dns = batch_size 50
            (db_find all_dns_collection [(''zone'', zone)] (Some [(''_id'', VInt 0)]))
      in and_then (db_remove remote_all_dns_collection [(''zone'', zone)] w) (\<lambda>_ w1.
         and_then (cursor_fetch all_dns w1) (\<lambda>ds w2.
           insert_each remote_all_dns_collection ds w2)))"

fun all_dns_loop :: "handle \<Rightarrow> handle \<Rightarrow> val list \<Rightarrow> world \<Rightarrow> (exn + unit) \<times> world" where
  "all_dns_loop a r [] w = (Inr (), w)"
| "all_dns_loop a r (zone # rest) w =
     and_then (update_all_dns_zone a r zone w) (\<lambda>_ w1. all_dns_loop a r rest w1)"

definition update_all_dns :: "side \<Rightarrow> side \<Rightarrow> val list \<Rightarrow> world \<Rightarrow> (exn + unit) \<times> world" where
  "update_all_dns mongo_connector rm_connector zone_list w =
     (let all_dns_collection = get_all_dns_connection mongo_connector;
          remote_all_dns_collection = get_all_dns_connection rm_connector
      in all_dns_loop all_dns_collection remote_all_dns_collection zone_list w)"

section \<open>The orchestrator\<close>

text \<open>
  The flags as \<^verbatim>\<open>argparse\<close> has read them. \<open>main\<close> takes them together with
  \<^verbatim>\<open>len(sys.argv)\<close>, and the world in which both accessors are connected: logging, the
  parsing of the command line and the construction of the accessors (lines 179 to 198
  of the script) come before and change no store.

  Modelled from the spec: the jobs manager \<^verbatim>\<open>JobsManager\<close> is not among the sources; by
  the spec it records the start and the completion of the run and nothing else.
\<close>

record args =
  send_zones :: bool
  send_ip_zones :: bool
  send_third_party_zones :: bool
  send_config :: bool
  send_dns_records :: bool

definition record_job_start :: "world \<Rightarrow> world" where
  "record_job_start w = w\<lparr>job := Running\<rparr>"

definition record_job_complete :: "world \<Rightarrow> world" where
  "record_job_complete w = w\<lparr>job := Completed\<rparr>"

definition skip :: "world \<Rightarrow> (exn + unit) \<times> world" where
  "skip w = (Inr (), w)"

definition main :: "nat \<Rightarrow> args \<Rightarrow> world \<Rightarrow> (exn + unit) \<times> world" where
  "main argc args w =
     (let send_all = (argc = 1);
          mongo_connector = Primary;
          remote_mongo_connector = Remote
      in
      and_then
        (if send_all \<or> send_zones args
         then update_zones mongo_connector remote_mongo_connector True (record_job_start w)
         else update_zones mongo_connector remote_mongo_connector False (record_job_start w))
        (\<lambda>zone_list w1.
      and_then
        (if send_all \<or> send_ip_zones args
         then update_ip_zones mongo_connector remote_mongo_connector w1 else skip w1)
        (\<lambda>_ w2.
      and_then
        (if send_all \<or> send_third_party_zones args
         then and_then (update_aws_cidrs mongo_connector remote_mongo_connector w2) (\<lambda>_ w3.
              and_then (update_azure_cidrs mongo_connector remote_mongo_connector w3) (\<lambda>_ w4.
              and_then (update_akamai_cidrs mongo_connector remote_mongo_connector w4) (\<lambda>_ w5.
                update_gcp_cidrs mongo_connector remote_mongo_connector w5)))
         else skip w2)
        (\<lambda>_ w6.
      and_then
        (if send_all \<or> send_config args
         then update_config mongo_connector remote_mongo_connector w6 else skip w6)
        (\<lambda>_ w7.
      and_then
        (if send_all \<or> send_dns_records args
         then update_all_dns mongo_connector remote_mongo_connector zone_list w7 else skip w7)
        (\<lambda>_ w8. (Inr (), record_job_complete w8)))))))"

section \<open>Notions used in the statements\<close>

text \<open>
  A document with its internal identifier field removed; the operations sent during a
  run that led from \<open>w\<close> to \<open>w'\<close>; the collection an operation was sent to; the zone
  names of a list of zone documents.
\<close>

definition strip_id :: "doc \<Rightarrow> doc" where
  "strip_id d = filter (\<lambda>(k, v). k \<noteq> ''_id'') d"

definition new_events :: "world \<Rightarrow> world \<Rightarrow> event list" where
  "new_events w w' = drop (length (oplog w)) (oplog w')"

definition target :: "event \<Rightarrow> handle" where
  "target e = (fst e, fst (snd e))"

definition zone_names :: "doc list \<Rightarrow> val list" where
  "zone_names ds = concat (map (\<lambda>d. case map_of d ''zone'' of None \<Rightarrow> [] | Some z \<Rightarrow> [z]) ds)"

text \<open>
  The full-replace algorithm in the words of the spec (4.3): delete every document of
  the destination collection, then read every document of the source collection
  without its identifier field and insert each into the destination. \<open>replace_events\<close>
  lists the operations this sends when the source holds the documents \<open>ds\<close>.
\<close>

definition full_replace :: "handle \<Rightarrow> handle \<Rightarrow> world \<Rightarrow> (exn + unit) \<times> world" where
  "full_replace source destination w =
     and_then (db_remove destination [] w) (\<lambda>_ w1.
     and_then (cursor_fetch (db_find source [] (Some [(''_id'', VInt 0)])) w1) (\<lambda>ds w2.
       insert_each destination ds w2))"

definition replace_events :: "string \<Rightarrow> doc list \<Rightarrow> event list" where
  "replace_events name ds =
     (Remote, name, Remove []) # (Primary, name, Find [] (Some [(''_id'', VInt 0)])) #
     map (\<lambda>d. (Remote, name, Insert (strip_id d))) ds"

text \<open>
  For the DNS records: a document belongs to zone \<open>z\<close> when its field \<^verbatim>\<open>zone\<close> is \<open>z\<close>;
  \<open>zone_events z ds\<close> lists the operations of the DNS step for one zone when the
  primary DNS collection holds \<open>ds\<close>: the delete scoped to the zone, the read of the
  zone's documents, and one insert for each; \<open>is_remove\<close> picks the deletes out of a
  list of operations.
\<close>

definition in_zone :: "val \<Rightarrow> doc \<Rightarrow> bool" where
  "in_zone z d = (map_of d ''zone'' = Some z)"

definition zone_events :: "val \<Rightarrow> doc list \<Rightarrow> event list" where
  "zone_events z ds =
     (Remote, ''all_dns'', Remove [(''zone'', z)]) #
     (Primary, ''all_dns'', Find [(''zone'', z)] (Some [(''_id'', VInt 0)])) #
     map (\<lambda>d. (Remote, ''all_dns'', Insert (strip_id d))) (filter (in_zone z) ds)"

definition is_remove :: "event \<Rightarrow> bool" where
  "is_remove e = (case snd (snd e) of Remove q \<Rightarrow> True | _ \<Rightarrow> False)"

text \<open>
  For a whole run: an operation is a read when it is a \<^verbatim>\<open>find\<close>; the operations sent
  to the primary store; the read of the primary Zone collection that produces the zone
  list. \<open>run_inv T ok w w'\<close> collects what every part of a run keeps true from a world
  \<open>w\<close> to a later world \<open>w'\<close>: the log only grows, by operations on the collections
  \<open>T\<close>; the primary store is only read and its collections do not change; a remote
  collection outside \<open>T\<close> does not change; every operation on the primary store uses
  up exactly one entry of the primary's script; and when the part completed (\<open>ok\<close>)
  none of these entries was a fault. The handles of the zone step, of the full-replace
  steps and of the DNS step follow.
\<close>

definition is_read :: "event \<Rightarrow> bool" where
  "is_read e = (case snd (snd e) of Find q p \<Rightarrow> True | _ \<Rightarrow> False)"

definition primary_events :: "event list \<Rightarrow> event list" where
  "primary_events d = filter (\<lambda>e. fst e = Primary) d"

definition zones_read :: event where
  "zones_read = (Primary, ''zones'', Find [] (Some [(''_id'', VInt 0)]))"

definition run_inv :: "handle list \<Rightarrow> bool \<Rightarrow> world \<Rightarrow> world \<Rightarrow> bool" where
  "run_inv T ok w w' \<longleftrightarrow>
     oplog w' = oplog w @ new_events w w' \<and>
     list_all (\<lambda>e. target e \<in> set T) (new_events w w') \<and>
     list_all is_read (primary_events (new_events w w')) \<and>
     colls (primary w') = colls (primary w) \<and>
     (\<forall>n. (Remote, n) \<notin> set T \<longrightarrow> colls (remote w') n = colls (remote w) n) \<and>
     script (primary w') = drop (length (primary_events (new_events w w'))) (script (primary w)) \<and>
     (ok \<longrightarrow> list_all (\<lambda>f. f = NoFault)
        (take (length (primary_events (new_events w w'))) (script (primary w))))"

definition middle_handles :: "handle list" where
  "middle_handles =
     concat (map (\<lambda>n. [(Primary, n), (Remote, n)])
       [''ip_zones'', ''ipv6_zones'', ''aws_ips'', ''azure_ips'', ''akamai_ips'', ''gcp_ips'',
        ''config''])"

definition dns_handles :: "handle list" where
  "dns_handles = [(Primary, ''all_dns''), (Remote, ''all_dns'')]"

definition zone_handles :: "bool \<Rightarrow> handle list" where
  "zone_handles update_zone_list =
     (Primary, ''zones'') # (if update_zone_list then [(Remote, ''zones'')] else [])"

text \<open>
  A store with given collections and a given script (every other collection is empty),
  and the world of two stores before a run has sent anything.
\<close>

definition store_of :: "(string \<times> doc list) list \<Rightarrow> fault list \<Rightarrow> store" where
  "store_of contents fs =
     \<lparr>colls = (\<lambda>name. case map_of contents name of None \<Rightarrow> [] | Some ds \<Rightarrow> ds), script = fs\<rparr>"

definition world_of :: "store \<Rightarrow> store \<Rightarrow> world" where
  "world_of p r = \<lparr>primary = p, remote = r, oplog = [], job = NotStarted\<rparr>"

text \<open>
  Concrete inputs on which the statements below are run: an environment in which no
  configuration file can be read; a configuration without the section of the remote
  store; and a world whose primary store holds documents with identifiers and whose
  remote store holds stale documents (the scenario of the spec: the zone
  \<^verbatim>\<open>example.com\<close> on the primary, \<^verbatim>\<open>stale.com\<close> on the remote).
\<close>

definition no_files :: env where
  "no_files = \<lparr>files = (\<lambda>name. Unreadable), clients = []\<rparr>"


definition example_primary :: "(string \<times> doc list) list" where
  "example_primary =
     [(''zones'', [[(''_id'', VInt 1), (''zone'', VStr ''example.com'')]]),
      (''ip_zones'', [[(''_id'', VInt 2), (''zone'', VStr ''10.0.0.0/8'')]]),
      (''ipv6_zones'', [[(''_id'', VInt 3), (''zone'', VStr ''2001:db8::/32'')]]),
      (''config'', [[(''_id'', VInt 4), (''key'', VStr ''new'')]]),
      (''aws_ips'', [[(''_id'', VInt 5), (''ip_prefix'', VStr ''3.0.0.0/15'')]]),
      (''azure_ips'', [[(''_id'', VInt 6), (''ip_prefix'', VStr ''13.64.0.0/11'')]]),
      (''akamai_ips'', [[(''_id'', VInt 7), (''ip_prefix'', VStr ''23.0.0.0/12'')]]),
      (''gcp_ips'', [[(''_id'', VInt 8), (''ip_prefix'', VStr ''34.64.0.0/10'')]]),
      (''all_dns'',
        [[(''_id'', VInt 9), (''zone'', VStr ''example.com''), (''fqdn'', VStr ''a.example.com'')],
         [(''_id'', VInt 10), (''zone'', VStr ''other.org''), (''fqdn'', VStr ''b.other.org'')]])]"

definition example_remote :: "(string \<times> doc list) list" where
  "example_remote =
     [(''zones'', [[(''zone'', VStr ''stale.com'')]]),
      (''config'', [[(''key'', VStr ''old'')]]),
      (''aws_ips'', [[(''ip_prefix'', VStr ''52.0.0.0/8'')]]),
      (''all_dns'',
        [[(''zone'', VStr ''example.com''), (''fqdn'', VStr ''old.example.com'')],
         [(''zone'', VStr ''other.org''), (''fqdn'', VStr ''old.other.org'')]])]"

definition example_world :: world where
  "example_world = world_of (store_of example_primary []) (store_of example_remote [])"

definition dns_only :: args where
  "dns_only = \<lparr>send_zones = False, send_ip_zones = False, send_third_party_zones = False,
               send_config = False, send_dns_records = True\<rparr>"

definition no_flags :: args where
  "no_flags = \<lparr>send_zones = False, send_ip_zones = False, send_third_party_zones = False,
               send_config = False, send_dns_records = False\<rparr>"

definition disconnected_world :: world where
  "disconnected_world = world_of (store_of example_primary [Disconnect]) (store_of example_remote [])"

section \<open>Properties of the retrying query executor\<close>

lemma retry_loop_return:
  "attempt (calls st) = Inr r \<Longrightarrow> retry_loop attempt n st = (Inr r, tick st)"
  by (subst retry_loop.simps) simp

lemma retry_loop_retry:
  "attempt (calls st) = Inl AutoReconnect \<Longrightarrow> n < 5 \<Longrightarrow>
   retry_loop attempt n st = retry_loop attempt (Suc n) (sleep 5 (tick st))"
  by (subst retry_loop.simps) simp

lemma retry_loop_exit:
  "attempt (calls st) = Inl AutoReconnect \<Longrightarrow> \<not> n < 5 \<Longrightarrow>
   retry_loop attempt n st = (Inl (SystemExit 1), tick st)"
  by (subst retry_loop.simps) simp

lemma retry_loop_raise:
  "attempt (calls st) = Inl e \<Longrightarrow> e \<noteq> AutoReconnect \<Longrightarrow>
   retry_loop attempt n st = (Inl e, tick st)"
  by (subst retry_loop.simps) simp

lemma calls_tick [simp]: "calls (tick st) = Suc (calls st)"
  by (simp add: tick_def)

lemma slept_tick [simp]: "slept (tick st) = slept st"
  by (simp add: tick_def)

lemma calls_sleep [simp]: "calls (sleep n st) = calls st"
  by (simp add: sleep_def)

lemma slept_sleep [simp]: "slept (sleep n st) = slept st @ [n]"
  by (simp add: sleep_def)

text \<open>
  When the next \<open>j\<close> store calls all raise \<open>AutoReconnect\<close> and \<open>j\<close> more retries are
  allowed, the loop goes \<open>j\<close> rounds on, sleeping once in each.
\<close>

lemma retry_loop_failures:
  "(\<forall>k<j. attempt (calls st + k) = Inl AutoReconnect) \<Longrightarrow> n + j \<le> 5 \<Longrightarrow>
   retry_loop attempt n st =
   retry_loop attempt (n + j) (st\<lparr>calls := calls st + j, slept := slept st @ replicate j 5\<rparr>)"
proof (induction j arbitrary: n st)
  case 0
  then show ?case by simp
next
  case (Suc j)
  have first: "attempt (calls st) = Inl AutoReconnect"
    using Suc.prems(1) by (metis add.right_neutral zero_less_Suc)
  have rest: "\<forall>k<j. attempt (calls (sleep 5 (tick st)) + k) = Inl AutoReconnect"
    using Suc.prems(1) by (metis Suc_less_eq add_Suc_shift calls_sleep calls_tick)
  have "retry_loop attempt n st = retry_loop attempt (Suc n) (sleep 5 (tick st))"
    using first Suc.prems(2) by (simp add: retry_loop_retry)
  also have "\<dots> = retry_loop attempt (Suc n + j)
      ((sleep 5 (tick st))\<lparr>calls := calls (sleep 5 (tick st)) + j,
         slept := slept (sleep 5 (tick st)) @ replicate j 5\<rparr>)"
    using rest Suc.prems(2) by (intro Suc.IH) simp_all
  also have "\<dots> = retry_loop attempt (n + Suc j)
      (st\<lparr>calls := calls st + Suc j, slept := slept st @ replicate (Suc j) 5\<rparr>)"
    by (simp add: tick_def sleep_def replicate_append_same)
  finally show ?case .
qed

lemma retry_loop_four_failures:
  assumes "\<forall>k<4. attempt (calls st + k) = Inl AutoReconnect"
    and "attempt (calls st + 4) = Inr r"
  shows "retry_loop attempt 0 st =
    (Inr r, st\<lparr>calls := calls st + 5, slept := slept st @ [5, 5, 5, 5]\<rparr>)"
proof -
  have "retry_loop attempt 0 st =
      retry_loop attempt (0 + 4) (st\<lparr>calls := calls st + 4, slept := slept st @ replicate 4 5\<rparr>)"
    using assms(1) by (intro retry_loop_failures) simp_all
  also have "\<dots> = (Inr r, tick (st\<lparr>calls := calls st + 4, slept := slept st @ replicate 4 5\<rparr>))"
    using assms(2) by (intro retry_loop_return) simp
  finally show ?thesis
    by (simp add: tick_def numeral_eq_Suc)
qed

lemma retry_loop_six_failures:
  assumes "\<forall>k<6. attempt (calls st + k) = Inl AutoReconnect"
  shows "retry_loop attempt 0 st =
    (Inl (SystemExit 1), st\<lparr>calls := calls st + 6, slept := slept st @ [5, 5, 5, 5, 5]\<rparr>)"
proof -
  have "retry_loop attempt 0 st =
      retry_loop attempt (0 + 5) (st\<lparr>calls := calls st + 5, slept := slept st @ replicate 5 5\<rparr>)"
    using assms by (intro retry_loop_failures) simp_all
  also have "\<dots> = (Inl (SystemExit 1),
      tick (st\<lparr>calls := calls st + 5, slept := slept st @ replicate 5 5\<rparr>))"
    using assms by (intro retry_loop_exit) simp_all
  finally show ?thesis
    by (simp add: tick_def numeral_eq_Suc)
qed

text \<open>Each of the four functions is the loop around its own call.\<close>

lemma perform_find_loop:
  "perform_find collection query filter_arg st =
   retry_loop (coll_find collection query filter_arg) 0 st"
  by (cases filter_arg) (simp_all add: perform_find_def)

lemma perform_find_one_loop:
  "perform_find_one collection query filter_arg st =
   retry_loop (coll_find_one collection query filter_arg) 0 st"
  by (cases filter_arg) (simp_all add: perform_find_one_def)

lemma perform_count_loop:
  "perform_count collection query st = retry_loop (coll_count collection query) 0 st"
  by (simp add: perform_count_def)

lemma perform_distinct_loop:
  "perform_distinct collection field query_arg st =
   retry_loop (coll_distinct collection field query_arg) 0 st"
  by (cases query_arg) (simp_all add: perform_distinct_def)

lemmas perform_loop =
  perform_find_loop perform_find_one_loop perform_count_loop perform_distinct_loop

text \<open>
  Claim C1, as the code has it. The guard \<^verbatim>\<open>num_tries < 5\<close> is tested after a call has
  failed and counts the failures before it, so it allows five retries: when the store
  call raises the transient \<open>AutoReconnect\<close> on six consecutive attempts, each of the
  four functions ends the run with \<^verbatim>\<open>exit(1)\<close> and returns no result, after exactly six
  calls (there is no seventh) and five delays of 5 time units.
\<close>

theorem retry_exhaustion_on_sixth_failure:
  "((\<forall>k<6. coll_find collection query filter_arg (calls st + k) = Inl AutoReconnect) \<longrightarrow>
      perform_find collection query filter_arg st =
        (Inl (SystemExit 1), st\<lparr>calls := calls st + 6, slept := slept st @ [5, 5, 5, 5, 5]\<rparr>)) \<and>
   ((\<forall>k<6. coll_find_one collection query filter_arg (calls st + k) = Inl AutoReconnect) \<longrightarrow>
      perform_find_one collection query filter_arg st =
        (Inl (SystemExit 1), st\<lparr>calls := calls st + 6, slept := slept st @ [5, 5, 5, 5, 5]\<rparr>)) \<and>
   ((\<forall>k<6. coll_count collection query (calls st + k) = Inl AutoReconnect) \<longrightarrow>
      perform_count collection query st =
        (Inl (SystemExit 1), st\<lparr>calls := calls st + 6, slept := slept st @ [5, 5, 5, 5, 5]\<rparr>)) \<and>
   ((\<forall>k<6. coll_distinct collection field query_arg (calls st + k) = Inl AutoReconnect) \<longrightarrow>
      perform_distinct collection field query_arg st =
        (Inl (SystemExit 1), st\<lparr>calls := calls st + 6, slept := slept st @ [5, 5, 5, 5, 5]\<rparr>))"
  unfolding perform_loop
  by (intro conjI impI retry_loop_six_failures; assumption)

theorem retry_exhaustion_on_sixth_failure_witness:
  "perform_find (flaky 6 []) [] None fresh =
     (Inl (SystemExit 1), \<lparr>calls = 6, slept = [5, 5, 5, 5, 5]\<rparr>) \<and>
   perform_find_one (flaky 6 []) [] None fresh =
     (Inl (SystemExit 1), \<lparr>calls = 6, slept = [5, 5, 5, 5, 5]\<rparr>) \<and>
   perform_count (flaky 6 []) [] fresh =
     (Inl (SystemExit 1), \<lparr>calls = 6, slept = [5, 5, 5, 5, 5]\<rparr>) \<and>
   perform_distinct (flaky 6 []) ''zone'' None fresh =
     (Inl (SystemExit 1), \<lparr>calls = 6, slept = [5, 5, 5, 5, 5]\<rparr>)"
  using retry_exhaustion_on_sixth_failure [of "flaky 6 []" "[]" None fresh "''zone''" None]
  by (simp add: flaky_def fresh_def)

text \<open>
  Claim C1 as stated fails: on a collection whose first five calls raise
  \<open>AutoReconnect\<close>, \<^verbatim>\<open>perform_find\<close> makes a sixth call and returns its result.
\<close>

theorem five_failures_then_sixth_attempt_counterexample:
  "map (coll_find (flaky 5 [[(''zone'', VStr ''example.com'')]]) [] None) [0, 1, 2, 3, 4] =
     [Inl AutoReconnect, Inl AutoReconnect, Inl AutoReconnect, Inl AutoReconnect,
      Inl AutoReconnect] \<and>
   perform_find (flaky 5 [[(''zone'', VStr ''example.com'')]]) [] None fresh =
     (Inr [[(''zone'', VStr ''example.com'')]], \<lparr>calls = 6, slept = [5, 5, 5, 5, 5]\<rparr>)"
  by (simp add: perform_find_def flaky_def fresh_def retry_loop.simps tick_def sleep_def)

text \<open>
  Claim C4. When the store call raises \<open>AutoReconnect\<close> on the first four attempts and
  returns on the fifth, each of the four functions returns that result as it is, after
  exactly five calls and four delays of 5 time units, and raises nothing. A call that
  returns at once gives the caller the same value: the returned value does not tell a
  retried success from an immediate one.
\<close>

theorem retry_success_on_fifth_attempt:
  "((\<forall>k<4. coll_find collection query filter_arg (calls st + k) = Inl AutoReconnect) \<and>
    coll_find collection query filter_arg (calls st + 4) = Inr r1 \<longrightarrow>
      perform_find collection query filter_arg st =
        (Inr r1, st\<lparr>calls := calls st + 5, slept := slept st @ [5, 5, 5, 5]\<rparr>)) \<and>
   ((\<forall>k<4. coll_find_one collection query filter_arg (calls st + k) = Inl AutoReconnect) \<and>
    coll_find_one collection query filter_arg (calls st + 4) = Inr r2 \<longrightarrow>
      perform_find_one collection query filter_arg st =
        (Inr r2, st\<lparr>calls := calls st + 5, slept := slept st @ [5, 5, 5, 5]\<rparr>)) \<and>
   ((\<forall>k<4. coll_count collection query (calls st + k) = Inl AutoReconnect) \<and>
    coll_count collection query (calls st + 4) = Inr r3 \<longrightarrow>
      perform_count collection query st =
        (Inr r3, st\<lparr>calls := calls st + 5, slept := slept st @ [5, 5, 5, 5]\<rparr>)) \<and>
   ((\<forall>k<4. coll_distinct collection field query_arg (calls st + k) = Inl AutoReconnect) \<and>
    coll_distinct collection field query_arg (calls st + 4) = Inr r4 \<longrightarrow>
      perform_distinct collection field query_arg st =
        (Inr r4, st\<lparr>calls := calls st + 5, slept := slept st @ [5, 5, 5, 5]\<rparr>)) \<and>
   (coll_find collection' query filter_arg (calls st') = Inr r1 \<longrightarrow>
      fst (perform_find collection' query filter_arg st') = Inr r1) \<and>
   (coll_find_one collection' query filter_arg (calls st') = Inr r2 \<longrightarrow>
      fst (perform_find_one collection' query filter_arg st') = Inr r2) \<and>
   (coll_count collection' query (calls st') = Inr r3 \<longrightarrow>
      fst (perform_count collection' query st') = Inr r3) \<and>
   (coll_distinct collection' field query_arg (calls st') = Inr r4 \<longrightarrow>
      fst (perform_distinct collection' field query_arg st') = Inr r4)"
  unfolding perform_loop
  by (intro conjI impI retry_loop_four_failures; (elim conjE)?;
      (assumption | simp add: retry_loop_return))

theorem retry_success_on_fifth_attempt_witness:
  "perform_find (flaky 4 [[(''zone'', VStr ''example.com'')]]) [] None fresh =
     (Inr [[(''zone'', VStr ''example.com'')]], \<lparr>calls = 5, slept = [5, 5, 5, 5]\<rparr>) \<and>
   perform_find_one (flaky 4 [[(''zone'', VStr ''example.com'')]]) [] None fresh =
     (Inr (Some [(''zone'', VStr ''example.com'')]), \<lparr>calls = 5, slept = [5, 5, 5, 5]\<rparr>) \<and>
   perform_count (flaky 4 [[(''zone'', VStr ''example.com'')]]) [] fresh =
     (Inr 1, \<lparr>calls = 5, slept = [5, 5, 5, 5]\<rparr>) \<and>
   perform_distinct (flaky 4 [[(''zone'', VStr ''example.com'')]]) ''zone'' None fresh =
     (Inr [VStr ''example.com''], \<lparr>calls = 5, slept = [5, 5, 5, 5]\<rparr>) \<and>
   fst (perform_find (flaky 0 [[(''zone'', VStr ''example.com'')]]) [] None fresh) =
     Inr [[(''zone'', VStr ''example.com'')]] \<and>
   fst (perform_find_one (flaky 0 [[(''zone'', VStr ''example.com'')]]) [] None fresh) =
     Inr (Some [(''zone'', VStr ''example.com'')]) \<and>
   fst (perform_count (flaky 0 [[(''zone'', VStr ''example.com'')]]) [] fresh) = Inr 1 \<and>
   fst (perform_distinct (flaky 0 [[(''zone'', VStr ''example.com'')]]) ''zone'' None fresh) =
     Inr [VStr ''example.com'']"
  using retry_success_on_fifth_attempt
    [of "flaky 4 [[(''zone'', VStr ''example.com'')]]" "[]" None fresh
        "[[(''zone'', VStr ''example.com'')]]" "Some [(''zone'', VStr ''example.com'')]" 1
        "''zone''" None "[VStr ''example.com'']"
        "flaky 0 [[(''zone'', VStr ''example.com'')]]" fresh]
  by (simp add: flaky_def fresh_def)

section \<open>Properties of the configuration lookup and the constructor\<close>

lemma init_unreadable:
  "files env (if config_file \<noteq> '''' then config_file else ''connector.config'') = Unreadable \<Longrightarrow>
   RemoteMongoConnector_init config_file debug_arg env = (Inl (SystemExit 0), env)"
  by (simp add: RemoteMongoConnector_init_def Let_def split: if_splits)

text \<open>
  Claim C8, at a failing input. When no configuration file can be read, the constructor
  stops before \<^verbatim>\<open>_init_mongo_connection\<close> is called, so no client is created; but it
  stops with \<^verbatim>\<open>exit(0)\<close>, and the exit status of the process is zero, where the claim
  has a nonzero exit. (The other fatal exit of the file, in the retry loops, is
  \<^verbatim>\<open>exit(1)\<close>.)
\<close>

theorem missing_config_file_exits_with_status_zero:
  "RemoteMongoConnector_init '''' False no_files = (Inl (SystemExit 0), no_files) \<and>
   RemoteMongoConnector_init ''/etc/marinus/connector.config'' False no_files =
     (Inl (SystemExit 0), no_files) \<and>
   clients no_files = []"
  by (simp add: init_unreadable no_files_def)






section \<open>Properties of the store operations\<close>

lemma get_store_simps [simp]:
  "get_store Primary w = primary w" "get_store Remote w = remote w"
  by (simp_all add: get_store_def)

lemma put_store_simps [simp]:
  "put_store Primary st w = w\<lparr>primary := st\<rparr>" "put_store Remote st w = w\<lparr>remote := st\<rparr>"
  by (simp_all add: put_store_def)

lemma and_then_simps [simp]:
  "and_then (Inl e, w) f = (Inl e, w)"
  "and_then (Inr x, w) f = f x w"
  by (simp_all add: and_then_def)

lemma and_then_Inr:
  "and_then m f = (Inr y, w') \<longleftrightarrow> (\<exists>x w1. m = (Inr x, w1) \<and> f x w1 = (Inr y, w'))"
  by (cases m; cases "fst m") (auto simp: and_then_def)

text \<open>What a remote write and a primary read that succeed have done.\<close>
lemma remote_write_Inr:
  assumes "run_op (Remote, n) operation w = (Inr a, w')"
  shows "primary w' = primary w"
    and "colls (remote w') = (colls (remote w))(n := snd (apply_op operation (colls (remote w) n)))"
    and "script (remote w') = drop 1 (script (remote w))"
    and "oplog w' = oplog w @ [(Remote, n, operation)]"
    and "job w' = job w"
    and "a = fst (apply_op operation (colls (remote w) n))"
  using assms
  by (auto simp: run_op_def next_fault_def Let_def drop_Suc
      split: list.splits fault.splits prod.splits)

lemma primary_read_Inr:
  assumes "run_op (Primary, n) (Find q p) w = (Inr a, w')"
  shows "remote w' = remote w"
    and "colls (primary w') = colls (primary w)"
    and "script (primary w') = drop 1 (script (primary w))"
    and "list_all (\<lambda>f. f = NoFault) (take 1 (script (primary w)))"
    and "oplog w' = oplog w @ [(Primary, n, Find q p)]"
    and "job w' = job w"
    and "a = map (project p) (filter (matches q) (colls (primary w) n))"
  using assms
  by (auto simp: run_op_def next_fault_def Let_def drop_Suc apply_op_def
      split: list.splits fault.splits prod.splits)

lemma db_remove_Inr:
  assumes "db_remove (Remote, n) q w = (Inr u, w')"
  shows "primary w' = primary w"
    and "colls (remote w') = (colls (remote w))(n := filter (\<lambda>d. \<not> matches q d) (colls (remote w) n))"
    and "script (remote w') = drop 1 (script (remote w))"
    and "oplog w' = oplog w @ [(Remote, n, Remove q)]"
    and "job w' = job w"
  using assms remote_write_Inr [of n "Remove q" w _ w']
  by (auto simp: db_remove_def and_then_Inr apply_op_def)

lemma db_insert_Inr:
  assumes "db_insert (Remote, n) d w = (Inr u, w')"
  shows "primary w' = primary w"
    and "colls (remote w') = (colls (remote w))(n := colls (remote w) n @ [d])"
    and "script (remote w') = drop 1 (script (remote w))"
    and "oplog w' = oplog w @ [(Remote, n, Insert d)]"
    and "job w' = job w"
  using assms remote_write_Inr [of n "Insert d" w _ w']
  by (auto simp: db_insert_def and_then_Inr apply_op_def)

lemma insert_each_Inr:
  "insert_each (Remote, n) ds w = (Inr u, w') \<Longrightarrow>
   primary w' = primary w \<and>
   colls (remote w') = (colls (remote w))(n := colls (remote w) n @ ds) \<and>
   script (remote w') = drop (length ds) (script (remote w)) \<and>
   oplog w' = oplog w @ map (\<lambda>d. (Remote, n, Insert d)) ds \<and>
   job w' = job w"
proof (induction ds arbitrary: w)
  case Nil
  then show ?case by simp
next
  case (Cons d ds)
  from Cons.prems obtain w1 where
    first: "db_insert (Remote, n) d w = (Inr (), w1)" and
    rest: "insert_each (Remote, n) ds w1 = (Inr u, w')"
    by (auto simp: and_then_Inr)
  show ?case
    using Cons.IH [OF rest] db_insert_Inr [OF first]
    by (simp add: fun_eq_iff)
qed


lemma matches_empty [simp]: "matches [] d"
  by (simp add: matches_def)

lemma project_strip_id [simp]: "project (Some [(''_id'', VInt 0)]) = strip_id"
  by (auto simp: project_def strip_id_def fun_eq_iff intro!: filter_cong)

lemma cursor_fetch_Inr:
  assumes "cursor_fetch (db_find (Primary, n) q p) w = (Inr a, w')"
  shows "remote w' = remote w"
    and "colls (primary w') = colls (primary w)"
    and "script (primary w') = drop 1 (script (primary w))"
    and "list_all (\<lambda>f. f = NoFault) (take 1 (script (primary w)))"
    and "oplog w' = oplog w @ [(Primary, n, Find q p)]"
    and "job w' = job w"
    and "a = map (project p) (filter (matches q) (colls (primary w) n))"
  using assms primary_read_Inr [of n q p w a w']
  by (simp_all add: cursor_fetch_def db_find_def)

lemma cursor_fetch_batch_size [simp]:
  "cursor_fetch (batch_size k c) w = cursor_fetch c w"
  by (simp add: cursor_fetch_def batch_size_def)

lemma full_replace_Inr:
  assumes "full_replace (Primary, n) (Remote, n) w = (Inr u, w')"
  shows "colls (remote w') = (colls (remote w))(n := map strip_id (colls (primary w) n))"
    and "colls (primary w') = colls (primary w)"
    and "oplog w' = oplog w @ replace_events n (colls (primary w) n)"
    and "job w' = job w"
    and "script (primary w') = drop 1 (script (primary w))"
    and "list_all (\<lambda>f. f = NoFault) (take 1 (script (primary w)))"
    and "script (remote w') = drop (Suc (length (colls (primary w) n))) (script (remote w))"
proof -
  from assms obtain w1 ds w2 where
    rm: "db_remove (Remote, n) [] w = (Inr (), w1)" and
    rd: "cursor_fetch (db_find (Primary, n) [] (Some [(''_id'', VInt 0)])) w1 = (Inr ds, w2)" and
    ins: "insert_each (Remote, n) ds w2 = (Inr u, w')"
    by (auto simp: full_replace_def and_then_Inr)
  note a = db_remove_Inr [OF rm] and b = cursor_fetch_Inr [OF rd] and c = insert_each_Inr [OF ins]
  have ds: "ds = map strip_id (colls (primary w) n)"
    using a b by simp
  show "colls (remote w') = (colls (remote w))(n := map strip_id (colls (primary w) n))"
    using a b c ds by (simp add: fun_eq_iff)
  show "colls (primary w') = colls (primary w)"
    using a b c by simp
  show "oplog w' = oplog w @ replace_events n (colls (primary w) n)"
    using a b c ds by (simp add: replace_events_def comp_def)
  show "job w' = job w"
    using a b c by simp
  show "script (primary w') = drop 1 (script (primary w))"
    using a b c by simp
  show "list_all (\<lambda>f. f = NoFault) (take 1 (script (primary w)))"
    using a b by simp
  show "script (remote w') = drop (Suc (length (colls (primary w) n))) (script (remote w))"
    using a b c ds by (simp add: drop_Suc drop_tl)
qed

text \<open>Each full-replace step is the algorithm of the spec at its collection.\<close>

lemma and_then_assoc:
  "and_then (and_then m f) g = and_then m (\<lambda>x w. and_then (f x w) g)"
  by (cases m; cases "fst m") (auto simp: and_then_def)

lemma update_config_eq:
  "update_config mc rc = full_replace (mc, ''config'') (rc, ''config'')"
  by (simp add: update_config_def full_replace_def get_config_connection_def fun_eq_iff Let_def)

lemma update_aws_cidrs_eq:
  "update_aws_cidrs mc rc = full_replace (mc, ''aws_ips'') (rc, ''aws_ips'')"
  by (simp add: update_aws_cidrs_def full_replace_def get_aws_ips_connection_def fun_eq_iff Let_def)

lemma update_azure_cidrs_eq:
  "update_azure_cidrs mc rc = full_replace (mc, ''azure_ips'') (rc, ''azure_ips'')"
  by (simp add: update_azure_cidrs_def full_replace_def get_azure_ips_connection_def fun_eq_iff Let_def)

lemma update_akamai_cidrs_eq:
  "update_akamai_cidrs mc rc = full_replace (mc, ''akamai_ips'') (rc, ''akamai_ips'')"
  by (simp add: update_akamai_cidrs_def full_replace_def get_akamai_ips_connection_def fun_eq_iff Let_def)

lemma update_gcp_cidrs_eq:
  "update_gcp_cidrs mc rc = full_replace (mc, ''gcp_ips'') (rc, ''gcp_ips'')"
  by (simp add: update_gcp_cidrs_def full_replace_def get_gcp_ips_connection_def fun_eq_iff Let_def)

lemma update_ip_zones_eq:
  "update_ip_zones mc rc w =
   and_then (full_replace (mc, ''ip_zones'') (rc, ''ip_zones'') w)
     (\<lambda>_ w3. full_replace (mc, ''ipv6_zones'') (rc, ''ipv6_zones'') w3)"
  by (simp add: update_ip_zones_def full_replace_def get_ipzone_connection_def
      get_ipv6_zone_connection_def and_then_assoc Let_def)

lemma update_ip_zones_Inr:
  assumes "update_ip_zones Primary Remote w = (Inr u, w')"
  shows "colls (remote w') = (colls (remote w))
           (''ip_zones'' := map strip_id (colls (primary w) ''ip_zones''),
            ''ipv6_zones'' := map strip_id (colls (primary w) ''ipv6_zones''))"
    and "colls (primary w') = colls (primary w)"
    and "oplog w' = oplog w @ replace_events ''ip_zones'' (colls (primary w) ''ip_zones'') @
           replace_events ''ipv6_zones'' (colls (primary w) ''ipv6_zones'')"
    and "job w' = job w"
proof -
  from assms obtain w3 where
    one: "full_replace (Primary, ''ip_zones'') (Remote, ''ip_zones'') w = (Inr (), w3)" and
    two: "full_replace (Primary, ''ipv6_zones'') (Remote, ''ipv6_zones'') w3 = (Inr u, w')"
    by (auto simp: update_ip_zones_eq and_then_Inr)
  note a = full_replace_Inr [OF one] and b = full_replace_Inr [OF two]
  show "colls (remote w') = (colls (remote w))
           (''ip_zones'' := map strip_id (colls (primary w) ''ip_zones''),
            ''ipv6_zones'' := map strip_id (colls (primary w) ''ipv6_zones''))"
    using a b by simp
  show "colls (primary w') = colls (primary w)"
    using a b by simp
  show "oplog w' = oplog w @ replace_events ''ip_zones'' (colls (primary w) ''ip_zones'') @
           replace_events ''ipv6_zones'' (colls (primary w) ''ipv6_zones'')"
    using a b by simp
  show "job w' = job w"
    using a b by simp
qed

text \<open>Without scripted faults every operation succeeds.\<close>

lemma run_op_no_fault:
  "script (get_store s w) = [] \<Longrightarrow>
   \<exists>a w'. run_op (s, n) operation w = (Inr a, w') \<and> script (primary w') = script (primary w) \<and>
     script (remote w') = script (remote w)"
  by (cases s) (auto simp: run_op_def next_fault_def Let_def split: prod.splits)

lemma insert_each_no_fault:
  "script (remote w) = [] \<Longrightarrow>
   \<exists>w'. insert_each (Remote, n) ds w = (Inr (), w') \<and> script (primary w') = script (primary w) \<and>
     script (remote w') = []"
proof (induction ds arbitrary: w)
  case Nil
  then show ?case by simp
next
  case (Cons d ds)
  from run_op_no_fault [of Remote w n "Insert d"] Cons.prems obtain a w1 where
    "run_op (Remote, n) (Insert d) w = (Inr a, w1)" "script (primary w1) = script (primary w)"
    "script (remote w1) = []"
    by auto
  with Cons.IH [of w1] show ?case
    by (auto simp: db_insert_def)
qed

lemma full_replace_no_fault:
  assumes "script (primary w) = []" "script (remote w) = []"
  shows "\<exists>w'. full_replace (Primary, n) (Remote, m) w = (Inr (), w') \<and>
    script (primary w') = [] \<and> script (remote w') = []"
proof -
  from run_op_no_fault [of Remote w m "Remove []"] assms obtain a w1 where
    1: "run_op (Remote, m) (Remove []) w = (Inr a, w1)" "script (primary w1) = []"
    "script (remote w1) = []"
    by auto
  from run_op_no_fault [of Primary w1 n "Find [] (Some [(''_id'', VInt 0)])"] 1 obtain ds w2 where
    2: "run_op (Primary, n) (Find [] (Some [(''_id'', VInt 0)])) w1 = (Inr ds, w2)"
    "script (primary w2) = []" "script (remote w2) = []"
    by auto
  from insert_each_no_fault [of w2 m ds] 2 obtain w3 where
    3: "insert_each (Remote, m) ds w2 = (Inr (), w3)" "script (primary w3) = []"
    "script (remote w3) = []"
    by auto
  show ?thesis
    using 1 2 3 by (simp add: full_replace_def db_remove_def cursor_fetch_def db_find_def)
qed

lemma update_ip_zones_no_fault:
  assumes "script (primary w) = []" "script (remote w) = []"
  shows "\<exists>w'. update_ip_zones Primary Remote w = (Inr (), w') \<and>
    script (primary w') = [] \<and> script (remote w') = []"
proof -
  from full_replace_no_fault [OF assms, of "''ip_zones''" "''ip_zones''"] obtain w3 where
    1: "full_replace (Primary, ''ip_zones'') (Remote, ''ip_zones'') w = (Inr (), w3)"
    "script (primary w3) = []" "script (remote w3) = []"
    by auto
  from full_replace_no_fault [OF 1(2,3), of "''ipv6_zones''" "''ipv6_zones''"] 1(1)
  show ?thesis
    by (auto simp: update_ip_zones_eq)
qed

lemmas full_replace_steps =
  update_config_eq update_aws_cidrs_eq update_azure_cidrs_eq update_akamai_cidrs_eq
  update_gcp_cidrs_eq

section \<open>Properties of the full-replace steps\<close>

lemma new_events_append: "oplog w' = oplog w @ d \<Longrightarrow> new_events w w' = d"
  by (simp add: new_events_def)

text \<open>
  Claim C5. Whatever the primary collection and the remote collection hold before, a
  full-replace step (ip zones and ipv6 zones, config, and the four provider CIDR
  collections) that completes without an exception leaves the remote collection equal,
  as a list and hence as a set, to the primary collection with the identifier field
  removed from every document. The operations it has sent are, in this order: the
  delete of every remote document (the query \<^verbatim>\<open>{}\<close>), the read of the primary
  collection, and one insert for each document read. When no operation fails, the step
  completes.
\<close>

theorem full_replace_correct:
  "(update_ip_zones Primary Remote w = (Inr (), w1) \<longrightarrow>
      colls (remote w1) ''ip_zones'' = map strip_id (colls (primary w) ''ip_zones'') \<and>
      colls (remote w1) ''ipv6_zones'' = map strip_id (colls (primary w) ''ipv6_zones'') \<and>
      new_events w w1 = replace_events ''ip_zones'' (colls (primary w) ''ip_zones'') @
                        replace_events ''ipv6_zones'' (colls (primary w) ''ipv6_zones'')) \<and>
   (update_config Primary Remote w = (Inr (), w2) \<longrightarrow>
      colls (remote w2) ''config'' = map strip_id (colls (primary w) ''config'') \<and>
      new_events w w2 = replace_events ''config'' (colls (primary w) ''config'')) \<and>
   (update_aws_cidrs Primary Remote w = (Inr (), w3) \<longrightarrow>
      colls (remote w3) ''aws_ips'' = map strip_id (colls (primary w) ''aws_ips'') \<and>
      new_events w w3 = replace_events ''aws_ips'' (colls (primary w) ''aws_ips'')) \<and>
   (update_azure_cidrs Primary Remote w = (Inr (), w4) \<longrightarrow>
      colls (remote w4) ''azure_ips'' = map strip_id (colls (primary w) ''azure_ips'') \<and>
      new_events w w4 = replace_events ''azure_ips'' (colls (primary w) ''azure_ips'')) \<and>
   (update_akamai_cidrs Primary Remote w = (Inr (), w5) \<longrightarrow>
      colls (remote w5) ''akamai_ips'' = map strip_id (colls (primary w) ''akamai_ips'') \<and>
      new_events w w5 = replace_events ''akamai_ips'' (colls (primary w) ''akamai_ips'')) \<and>
   (update_gcp_cidrs Primary Remote w = (Inr (), w6) \<longrightarrow>
      colls (remote w6) ''gcp_ips'' = map strip_id (colls (primary w) ''gcp_ips'') \<and>
      new_events w w6 = replace_events ''gcp_ips'' (colls (primary w) ''gcp_ips'')) \<and>
   (script (primary w) = [] \<and> script (remote w) = [] \<longrightarrow>
      fst (update_ip_zones Primary Remote w) = Inr () \<and>
      fst (update_config Primary Remote w) = Inr () \<and>
      fst (update_aws_cidrs Primary Remote w) = Inr () \<and>
      fst (update_azure_cidrs Primary Remote w) = Inr () \<and>
      fst (update_akamai_cidrs Primary Remote w) = Inr () \<and>
      fst (update_gcp_cidrs Primary Remote w) = Inr ())"
proof (intro conjI impI)
  assume "update_ip_zones Primary Remote w = (Inr (), w1)"
  note a = update_ip_zones_Inr [OF this]
  show "colls (remote w1) ''ip_zones'' = map strip_id (colls (primary w) ''ip_zones'')"
    and "colls (remote w1) ''ipv6_zones'' = map strip_id (colls (primary w) ''ipv6_zones'')"
    and "new_events w w1 = replace_events ''ip_zones'' (colls (primary w) ''ip_zones'') @
                        replace_events ''ipv6_zones'' (colls (primary w) ''ipv6_zones'')"
    using a by (simp_all add: new_events_append)
next
  assume "update_config Primary Remote w = (Inr (), w2)"
  then have "full_replace (Primary, ''config'') (Remote, ''config'') w = (Inr (), w2)"
    by (simp add: update_config_eq)
  note a = full_replace_Inr [OF this]
  show "colls (remote w2) ''config'' = map strip_id (colls (primary w) ''config'')"
    and "new_events w w2 = replace_events ''config'' (colls (primary w) ''config'')"
    using a by (simp_all add: new_events_append)
next
  assume "update_aws_cidrs Primary Remote w = (Inr (), w3)"
  then have "full_replace (Primary, ''aws_ips'') (Remote, ''aws_ips'') w = (Inr (), w3)"
    by (simp add: update_aws_cidrs_eq)
  note a = full_replace_Inr [OF this]
  show "colls (remote w3) ''aws_ips'' = map strip_id (colls (primary w) ''aws_ips'')"
    and "new_events w w3 = replace_events ''aws_ips'' (colls (primary w) ''aws_ips'')"
    using a by (simp_all add: new_events_append)
next
  assume "update_azure_cidrs Primary Remote w = (Inr (), w4)"
  then have "full_replace (Primary, ''azure_ips'') (Remote, ''azure_ips'') w = (Inr (), w4)"
    by (simp add: update_azure_cidrs_eq)
  note a = full_replace_Inr [OF this]
  show "colls (remote w4) ''azure_ips'' = map strip_id (colls (primary w) ''azure_ips'')"
    and "new_events w w4 = replace_events ''azure_ips'' (colls (primary w) ''azure_ips'')"
    using a by (simp_all add: new_events_append)
next
  assume "update_akamai_cidrs Primary Remote w = (Inr (), w5)"
  then have "full_replace (Primary, ''akamai_ips'') (Remote, ''akamai_ips'') w = (Inr (), w5)"
    by (simp add: update_akamai_cidrs_eq)
  note a = full_replace_Inr [OF this]
  show "colls (remote w5) ''akamai_ips'' = map strip_id (colls (primary w) ''akamai_ips'')"
    and "new_events w w5 = replace_events ''akamai_ips'' (colls (primary w) ''akamai_ips'')"
    using a by (simp_all add: new_events_append)
next
  assume "update_gcp_cidrs Primary Remote w = (Inr (), w6)"
  then have "full_replace (Primary, ''gcp_ips'') (Remote, ''gcp_ips'') w = (Inr (), w6)"
    by (simp add: update_gcp_cidrs_eq)
  note a = full_replace_Inr [OF this]
  show "colls (remote w6) ''gcp_ips'' = map strip_id (colls (primary w) ''gcp_ips'')"
    and "new_events w w6 = replace_events ''gcp_ips'' (colls (primary w) ''gcp_ips'')"
    using a by (simp_all add: new_events_append)
next
  assume "script (primary w) = [] \<and> script (remote w) = []"
  then have nf: "script (primary w) = []" "script (remote w) = []"
    by simp_all
  show "fst (update_ip_zones Primary Remote w) = Inr ()"
    using update_ip_zones_no_fault [OF nf] by auto
  show "fst (update_config Primary Remote w) = Inr ()"
    using full_replace_no_fault [OF nf, of "''config''" "''config''"]
    by (auto simp: update_config_eq)
  show "fst (update_aws_cidrs Primary Remote w) = Inr ()"
    using full_replace_no_fault [OF nf, of "''aws_ips''" "''aws_ips''"]
    by (auto simp: update_aws_cidrs_eq)
  show "fst (update_azure_cidrs Primary Remote w) = Inr ()"
    using full_replace_no_fault [OF nf, of "''azure_ips''" "''azure_ips''"]
    by (auto simp: update_azure_cidrs_eq)
  show "fst (update_akamai_cidrs Primary Remote w) = Inr ()"
    using full_replace_no_fault [OF nf, of "''akamai_ips''" "''akamai_ips''"]
    by (auto simp: update_akamai_cidrs_eq)
  show "fst (update_gcp_cidrs Primary Remote w) = Inr ()"
    using full_replace_no_fault [OF nf, of "''gcp_ips''" "''gcp_ips''"]
    by (auto simp: update_gcp_cidrs_eq)
qed

text \<open>The definitions unfolded to run a step on the example world.\<close>

lemmas eval_defs =
  example_world_def example_primary_def example_remote_def world_of_def store_of_def
  full_replace_def db_remove_def db_insert_def cursor_fetch_def db_find_def run_op_def
  next_fault_def apply_op_def matches_def strip_id_def project_def Let_def

lemma pair_collapse: "fst p = a \<Longrightarrow> p = (a, snd p)"
  by (cases p) simp


theorem full_replace_correct_witness:
  "fst (update_ip_zones Primary Remote example_world) = Inr () \<and>
   colls (remote (snd (update_ip_zones Primary Remote example_world))) ''ip_zones'' =
     [[(''zone'', VStr ''10.0.0.0/8'')]] \<and>
   colls (remote (snd (update_ip_zones Primary Remote example_world))) ''ipv6_zones'' =
     [[(''zone'', VStr ''2001:db8::/32'')]] \<and>
   fst (update_config Primary Remote example_world) = Inr () \<and>
   colls (remote (snd (update_config Primary Remote example_world))) ''config'' =
     [[(''key'', VStr ''new'')]] \<and>
   new_events example_world (snd (update_config Primary Remote example_world)) =
     [(Remote, ''config'', Remove []),
      (Primary, ''config'', Find [] (Some [(''_id'', VInt 0)])),
      (Remote, ''config'', Insert [(''key'', VStr ''new'')])] \<and>
   fst (update_aws_cidrs Primary Remote example_world) = Inr () \<and>
   colls (remote (snd (update_aws_cidrs Primary Remote example_world))) ''aws_ips'' =
     [[(''ip_prefix'', VStr ''3.0.0.0/15'')]] \<and>
   fst (update_azure_cidrs Primary Remote example_world) = Inr () \<and>
   colls (remote (snd (update_azure_cidrs Primary Remote example_world))) ''azure_ips'' =
     [[(''ip_prefix'', VStr ''13.64.0.0/11'')]] \<and>
   fst (update_akamai_cidrs Primary Remote example_world) = Inr () \<and>
   colls (remote (snd (update_akamai_cidrs Primary Remote example_world))) ''akamai_ips'' =
     [[(''ip_prefix'', VStr ''23.0.0.0/12'')]] \<and>
   fst (update_gcp_cidrs Primary Remote example_world) = Inr () \<and>
   colls (remote (snd (update_gcp_cidrs Primary Remote example_world))) ''gcp_ips'' =
     [[(''ip_prefix'', VStr ''34.64.0.0/10'')]]"
proof -
  have nf: "script (primary example_world) = [] \<and> script (remote example_world) = []"
    by (simp add: example_world_def world_of_def store_of_def)
  note inst = full_replace_correct
    [of example_world
        "snd (update_ip_zones Primary Remote example_world)"
        "snd (update_config Primary Remote example_world)"
        "snd (update_aws_cidrs Primary Remote example_world)"
        "snd (update_azure_cidrs Primary Remote example_world)"
        "snd (update_akamai_cidrs Primary Remote example_world)"
        "snd (update_gcp_cidrs Primary Remote example_world)"]
  from inst nf have ok:
    "fst (update_ip_zones Primary Remote example_world) = Inr ()"
    "fst (update_config Primary Remote example_world) = Inr ()"
    "fst (update_aws_cidrs Primary Remote example_world) = Inr ()"
    "fst (update_azure_cidrs Primary Remote example_world) = Inr ()"
    "fst (update_akamai_cidrs Primary Remote example_world) = Inr ()"
    "fst (update_gcp_cidrs Primary Remote example_world) = Inr ()"
    by blast+
  have src:
    "colls (primary example_world) ''ip_zones'' = [[(''_id'', VInt 2), (''zone'', VStr ''10.0.0.0/8'')]]"
    "colls (primary example_world) ''ipv6_zones'' = [[(''_id'', VInt 3), (''zone'', VStr ''2001:db8::/32'')]]"
    "colls (primary example_world) ''config'' = [[(''_id'', VInt 4), (''key'', VStr ''new'')]]"
    "colls (primary example_world) ''aws_ips'' = [[(''_id'', VInt 5), (''ip_prefix'', VStr ''3.0.0.0/15'')]]"
    "colls (primary example_world) ''azure_ips'' = [[(''_id'', VInt 6), (''ip_prefix'', VStr ''13.64.0.0/11'')]]"
    "colls (primary example_world) ''akamai_ips'' = [[(''_id'', VInt 7), (''ip_prefix'', VStr ''23.0.0.0/12'')]]"
    "colls (primary example_world) ''gcp_ips'' = [[(''_id'', VInt 8), (''ip_prefix'', VStr ''34.64.0.0/10'')]]"
    by (simp_all add: example_world_def example_primary_def world_of_def store_of_def)
  show ?thesis
    using inst ok [THEN pair_collapse]
    by (simp add: ok src strip_id_def replace_events_def)
qed

text \<open>
  Claim C7. A full-replace step run twice in a row (the primary is not written by the
  step, so its source is unchanged) leaves the remote collection after the second run
  equal to what the first run produced.
\<close>

theorem full_replace_idempotent:
  "(update_ip_zones Primary Remote w = (Inr (), a1) \<and>
    update_ip_zones Primary Remote a1 = (Inr (), a2) \<longrightarrow>
      colls (remote a2) ''ip_zones'' = colls (remote a1) ''ip_zones'' \<and>
      colls (remote a2) ''ipv6_zones'' = colls (remote a1) ''ipv6_zones'') \<and>
   (update_config Primary Remote w = (Inr (), b1) \<and>
    update_config Primary Remote b1 = (Inr (), b2) \<longrightarrow>
      colls (remote b2) ''config'' = colls (remote b1) ''config'') \<and>
   (update_aws_cidrs Primary Remote w = (Inr (), c1) \<and>
    update_aws_cidrs Primary Remote c1 = (Inr (), c2) \<longrightarrow>
      colls (remote c2) ''aws_ips'' = colls (remote c1) ''aws_ips'') \<and>
   (update_azure_cidrs Primary Remote w = (Inr (), d1) \<and>
    update_azure_cidrs Primary Remote d1 = (Inr (), d2) \<longrightarrow>
      colls (remote d2) ''azure_ips'' = colls (remote d1) ''azure_ips'') \<and>
   (update_akamai_cidrs Primary Remote w = (Inr (), e1) \<and>
    update_akamai_cidrs Primary Remote e1 = (Inr (), e2) \<longrightarrow>
      colls (remote e2) ''akamai_ips'' = colls (remote e1) ''akamai_ips'') \<and>
   (update_gcp_cidrs Primary Remote w = (Inr (), f1) \<and>
    update_gcp_cidrs Primary Remote f1 = (Inr (), f2) \<longrightarrow>
      colls (remote f2) ''gcp_ips'' = colls (remote f1) ''gcp_ips'')"
proof -
  have twice: "colls (remote w2) n = colls (remote w1) n"
    if "full_replace (Primary, n) (Remote, n) w = (Inr (), w1)"
      and "full_replace (Primary, n) (Remote, n) w1 = (Inr (), w2)" for n w1 w2
    using full_replace_Inr [OF that(1)] full_replace_Inr [OF that(2)] by simp
  have ip: "colls (remote a2) ''ip_zones'' = colls (remote a1) ''ip_zones'' \<and>
      colls (remote a2) ''ipv6_zones'' = colls (remote a1) ''ipv6_zones''"
    if "update_ip_zones Primary Remote w = (Inr (), a1)"
      and "update_ip_zones Primary Remote a1 = (Inr (), a2)"
    using update_ip_zones_Inr [OF that(1)] update_ip_zones_Inr [OF that(2)] by simp
  show ?thesis
    using ip twice by (simp add: full_replace_steps)
qed

theorem full_replace_idempotent_witness:
  "fst (update_aws_cidrs Primary Remote example_world) = Inr () \<and>
   fst (update_aws_cidrs Primary Remote (snd (update_aws_cidrs Primary Remote example_world))) = Inr () \<and>
   colls (remote (snd (update_aws_cidrs Primary Remote example_world))) ''aws_ips'' =
     [[(''ip_prefix'', VStr ''3.0.0.0/15'')]] \<and>
   colls (remote (snd (update_aws_cidrs Primary Remote
       (snd (update_aws_cidrs Primary Remote example_world))))) ''aws_ips'' =
     [[(''ip_prefix'', VStr ''3.0.0.0/15'')]] \<and>
   colls (remote (snd (update_ip_zones Primary Remote
       (snd (update_ip_zones Primary Remote example_world))))) ''ipv6_zones'' =
     colls (remote (snd (update_ip_zones Primary Remote example_world))) ''ipv6_zones''"
proof -
  let ?aws = "update_aws_cidrs Primary Remote"
  let ?ip = "update_ip_zones Primary Remote"
  have ok:
    "fst (?aws example_world) = Inr ()"
    "fst (?aws (snd (?aws example_world))) = Inr ()"
    "fst (?ip example_world) = Inr ()"
    "fst (?ip (snd (?ip example_world))) = Inr ()"
    by (simp_all add: update_aws_cidrs_eq update_ip_zones_eq eval_defs)
  have content: "colls (remote (snd (?aws example_world))) ''aws_ips'' =
      [[(''ip_prefix'', VStr ''3.0.0.0/15'')]]"
    by (simp add: update_aws_cidrs_eq eval_defs)
  show ?thesis
    using full_replace_idempotent
      [of example_world "snd (?ip example_world)" "snd (?ip (snd (?ip example_world)))"
          example_world example_world
          "snd (?aws example_world)" "snd (?aws (snd (?aws example_world)))"]
      ok [THEN pair_collapse]
    by (simp add: ok content)
qed

section \<open>Properties of the DNS step\<close>

lemma matches_zone [simp]: "matches [(''zone'', z)] = in_zone z"
  by (simp add: matches_def in_zone_def fun_eq_iff)

lemma map_of_strip_id: "k \<noteq> ''_id'' \<Longrightarrow> map_of (strip_id d) k = map_of d k"
  by (induction d) (auto simp: strip_id_def)

lemma in_zone_strip_id [simp]: "in_zone z (strip_id d) = in_zone z d"
  by (simp add: in_zone_def map_of_strip_id)

lemma filter_in_zone_strip_id:
  "filter (in_zone z) (map strip_id ds) = map strip_id (filter (in_zone z) ds)"
  by (induction ds) simp_all

lemma update_all_dns_zone_Inr:
  assumes "update_all_dns_zone (Primary, ''all_dns'') (Remote, ''all_dns'') z w = (Inr u, w')"
  shows "colls (remote w') = (colls (remote w))
           (''all_dns'' := filter (\<lambda>d. \<not> in_zone z d) (colls (remote w) ''all_dns'') @
              map strip_id (filter (in_zone z) (colls (primary w) ''all_dns'')))"
    and "colls (primary w') = colls (primary w)"
    and "oplog w' = oplog w @ zone_events z (colls (primary w) ''all_dns'')"
    and "job w' = job w"
proof -
  from assms obtain w1 ds w2 where
    rm: "db_remove (Remote, ''all_dns'') [(''zone'', z)] w = (Inr (), w1)" and
    rd: "cursor_fetch (db_find (Primary, ''all_dns'') [(''zone'', z)] (Some [(''_id'', VInt 0)])) w1 =
           (Inr ds, w2)" and
    ins: "insert_each (Remote, ''all_dns'') ds w2 = (Inr u, w')"
    by (auto simp: update_all_dns_zone_def and_then_Inr Let_def)
  note a = db_remove_Inr [OF rm] and b = cursor_fetch_Inr [OF rd] and c = insert_each_Inr [OF ins]
  have ds: "ds = map strip_id (filter (in_zone z) (colls (primary w) ''all_dns''))"
    using a b by simp
  show "colls (remote w') = (colls (remote w))
           (''all_dns'' := filter (\<lambda>d. \<not> in_zone z d) (colls (remote w) ''all_dns'') @
              map strip_id (filter (in_zone z) (colls (primary w) ''all_dns'')))"
    using a b c ds by (simp add: fun_eq_iff)
  show "colls (primary w') = colls (primary w)"
    using a b c by simp
  show "oplog w' = oplog w @ zone_events z (colls (primary w) ''all_dns'')"
    using a b c ds by (simp add: zone_events_def comp_def)
  show "job w' = job w"
    using a b c by simp
qed

lemma update_all_dns_zone_zone:
  assumes "update_all_dns_zone (Primary, ''all_dns'') (Remote, ''all_dns'') z w = (Inr u, w')"
  shows "filter (in_zone z) (colls (remote w') ''all_dns'') =
           map strip_id (filter (in_zone z) (colls (primary w) ''all_dns''))"
    and "filter (\<lambda>d. \<not> in_zone z d) (colls (remote w') ''all_dns'') =
           filter (\<lambda>d. \<not> in_zone z d) (colls (remote w) ''all_dns'')"
    and "z' \<noteq> z \<Longrightarrow> filter (in_zone z') (colls (remote w') ''all_dns'') =
           filter (in_zone z') (colls (remote w) ''all_dns'')"
proof -
  note a = update_all_dns_zone_Inr [OF assms]
  have both: "filter (\<lambda>d. in_zone z d \<and> in_zone z' d) ds = []" if "z' \<noteq> z" for ds :: "doc list"
    using that by (induction ds) (auto simp: in_zone_def)
  have other: "filter (\<lambda>d. \<not> in_zone z d \<and> in_zone z' d) ds = filter (in_zone z') ds"
    if "z' \<noteq> z" for ds :: "doc list"
    using that by (induction ds) (auto simp: in_zone_def)
  show "filter (in_zone z) (colls (remote w') ''all_dns'') =
           map strip_id (filter (in_zone z) (colls (primary w) ''all_dns''))"
    using a(1) by (simp add: filter_in_zone_strip_id)
  show "filter (\<lambda>d. \<not> in_zone z d) (colls (remote w') ''all_dns'') =
           filter (\<lambda>d. \<not> in_zone z d) (colls (remote w) ''all_dns'')"
    using a(1) by (simp add: filter_map comp_def)
  show "filter (in_zone z') (colls (remote w') ''all_dns'') =
           filter (in_zone z') (colls (remote w) ''all_dns'')" if "z' \<noteq> z"
    using a(1) that by (simp add: filter_in_zone_strip_id both other)
qed

lemma all_dns_loop_append:
  "all_dns_loop a r (xs @ ys) w = and_then (all_dns_loop a r xs w) (\<lambda>_ w1. all_dns_loop a r ys w1)"
proof (induction xs arbitrary: w)
  case Nil
  then show ?case by simp
next
  case (Cons x xs)
  have "all_dns_loop a r (xs @ ys) =
      (\<lambda>w. and_then (all_dns_loop a r xs w) (\<lambda>_ w1. all_dns_loop a r ys w1))"
    by (rule ext) (rule Cons.IH)
  then show ?case by (simp add: and_then_assoc)
qed

lemma all_dns_loop_Inr:
  "all_dns_loop (Primary, ''all_dns'') (Remote, ''all_dns'') zs w = (Inr u, w') \<Longrightarrow>
   colls (primary w') = colls (primary w) \<and> job w' = job w \<and>
   oplog w' = oplog w @ concat (map (\<lambda>z. zone_events z (colls (primary w) ''all_dns'')) zs) \<and>
   (\<forall>z. z \<notin> set zs \<longrightarrow> filter (in_zone z) (colls (remote w') ''all_dns'') =
      filter (in_zone z) (colls (remote w) ''all_dns'')) \<and>
   (\<forall>z. z \<in> set zs \<longrightarrow> filter (in_zone z) (colls (remote w') ''all_dns'') =
      map strip_id (filter (in_zone z) (colls (primary w) ''all_dns''))) \<and>
   (\<forall>n. n \<noteq> ''all_dns'' \<longrightarrow> colls (remote w') n = colls (remote w) n)"
proof (induction zs arbitrary: w)
  case Nil
  then show ?case by simp
next
  case (Cons z zs)
  from Cons.prems obtain w1 where
    one: "update_all_dns_zone (Primary, ''all_dns'') (Remote, ''all_dns'') z w = (Inr (), w1)" and
    rest: "all_dns_loop (Primary, ''all_dns'') (Remote, ''all_dns'') zs w1 = (Inr u, w')"
    by (auto simp: and_then_Inr)
  note a = update_all_dns_zone_Inr [OF one] and b = update_all_dns_zone_zone [OF one]
    and ih = Cons.IH [OF rest]
  show ?case
  proof (intro conjI allI impI)
    show "colls (primary w') = colls (primary w)" "job w' = job w"
      using a ih by simp_all
    show "oplog w' = oplog w @
        concat (map (\<lambda>z. zone_events z (colls (primary w) ''all_dns'')) (z # zs))"
      using a ih by simp
    show "filter (in_zone x) (colls (remote w') ''all_dns'') =
        filter (in_zone x) (colls (remote w) ''all_dns'')" if "x \<notin> set (z # zs)" for x
      using that ih b(3) [of x] by simp
    show "filter (in_zone x) (colls (remote w') ''all_dns'') =
        map strip_id (filter (in_zone x) (colls (primary w) ''all_dns''))"
      if "x \<in> set (z # zs)" for x
    proof (cases "x \<in> set zs")
      case True
      then show ?thesis using ih a(2) by simp
    next
      case False
      with that have "x = z" by simp
      with False show ?thesis using ih b(1) by simp
    qed
    show "colls (remote w') n = colls (remote w) n" if "n \<noteq> ''all_dns''" for n
      using that ih a(1) by simp
  qed
qed

lemma is_remove_zone_events [simp]:
  "filter is_remove (zone_events z ds) = [(Remote, ''all_dns'', Remove [(''zone'', z)])]"
  by (simp add: zone_events_def is_remove_def filter_map comp_def)

lemma filter_is_remove_concat:
  "filter is_remove (concat (map (\<lambda>z. zone_events z ds) zs)) =
   map (\<lambda>z. (Remote, ''all_dns'', Remove [(''zone'', z)])) zs"
  by (induction zs) simp_all

text \<open>
  Claim C3. For one zone \<open>z\<close>, the body of the loop deletes the remote DNS documents
  of that zone only, reads the primary DNS documents of the zone and inserts them:
  afterwards the remote documents of zone \<open>z\<close> are the primary ones as read (without
  identifiers), and the remote documents of every other zone, processed or not, are
  as before. The loop runs the zones in the order of the list: processing a list is
  processing what comes before \<open>z\<close>, then \<open>z\<close>, then what comes after. The deletes of a
  completed step are one per entry of the list, in its order, each scoped to its zone;
  so when the list has no duplicate no zone is deleted twice. At the end every zone of
  the list holds the primary's documents.
\<close>

theorem dns_zone_by_zone:
  "(update_all_dns_zone (Primary, ''all_dns'') (Remote, ''all_dns'') z w = (Inr (), w1) \<longrightarrow>
      filter (in_zone z) (colls (remote w1) ''all_dns'') =
        map strip_id (filter (in_zone z) (colls (primary w) ''all_dns'')) \<and>
      filter (\<lambda>d. \<not> in_zone z d) (colls (remote w1) ''all_dns'') =
        filter (\<lambda>d. \<not> in_zone z d) (colls (remote w) ''all_dns'') \<and>
      new_events w w1 = zone_events z (colls (primary w) ''all_dns'')) \<and>
   update_all_dns Primary Remote (before @ z # later) w =
     and_then (update_all_dns Primary Remote before w) (\<lambda>_ wa.
     and_then (update_all_dns_zone (Primary, ''all_dns'') (Remote, ''all_dns'') z wa) (\<lambda>_ wb.
       update_all_dns Primary Remote later wb)) \<and>
   (update_all_dns Primary Remote zone_list w = (Inr (), w2) \<longrightarrow>
      new_events w w2 =
        concat (map (\<lambda>z. zone_events z (colls (primary w) ''all_dns'')) zone_list) \<and>
      filter is_remove (new_events w w2) =
        map (\<lambda>z. (Remote, ''all_dns'', Remove [(''zone'', z)])) zone_list \<and>
      (distinct zone_list \<longrightarrow> distinct (filter is_remove (new_events w w2))) \<and>
      (\<forall>z \<in> set zone_list. filter (in_zone z) (colls (remote w2) ''all_dns'') =
         map strip_id (filter (in_zone z) (colls (primary w) ''all_dns''))))"
proof (intro conjI impI)
  assume "update_all_dns_zone (Primary, ''all_dns'') (Remote, ''all_dns'') z w = (Inr (), w1)"
  note a = update_all_dns_zone_Inr [OF this] and b = update_all_dns_zone_zone [OF this]
  show "filter (in_zone z) (colls (remote w1) ''all_dns'') =
        map strip_id (filter (in_zone z) (colls (primary w) ''all_dns''))"
    and "filter (\<lambda>d. \<not> in_zone z d) (colls (remote w1) ''all_dns'') =
        filter (\<lambda>d. \<not> in_zone z d) (colls (remote w) ''all_dns'')"
    and "new_events w w1 = zone_events z (colls (primary w) ''all_dns'')"
    using a b by (simp_all add: new_events_append)
next
  show "update_all_dns Primary Remote (before @ z # later) w =
     and_then (update_all_dns Primary Remote before w) (\<lambda>_ wa.
     and_then (update_all_dns_zone (Primary, ''all_dns'') (Remote, ''all_dns'') z wa) (\<lambda>_ wb.
       update_all_dns Primary Remote later wb))"
    by (simp add: update_all_dns_def get_all_dns_connection_def all_dns_loop_append Let_def)
next
  assume "update_all_dns Primary Remote zone_list w = (Inr (), w2)"
  then have "all_dns_loop (Primary, ''all_dns'') (Remote, ''all_dns'') zone_list w = (Inr (), w2)"
    by (simp add: update_all_dns_def get_all_dns_connection_def Let_def)
  note a = all_dns_loop_Inr [OF this]
  show ev: "new_events w w2 =
        concat (map (\<lambda>z. zone_events z (colls (primary w) ''all_dns'')) zone_list)"
    using a by (simp add: new_events_append)
  show rm: "filter is_remove (new_events w w2) =
        map (\<lambda>z. (Remote, ''all_dns'', Remove [(''zone'', z)])) zone_list"
    by (simp add: ev filter_is_remove_concat)
  show "distinct (filter is_remove (new_events w w2))" if "distinct zone_list"
    using that by (simp add: rm distinct_map inj_on_def)
  show "\<forall>z \<in> set zone_list. filter (in_zone z) (colls (remote w2) ''all_dns'') =
         map strip_id (filter (in_zone z) (colls (primary w) ''all_dns''))"
    using a by simp
qed

theorem dns_zone_by_zone_witness:
  "fst (update_all_dns_zone (Primary, ''all_dns'') (Remote, ''all_dns'') (VStr ''example.com'')
          example_world) = Inr () \<and>
   filter (in_zone (VStr ''example.com''))
     (colls (remote (snd (update_all_dns_zone (Primary, ''all_dns'') (Remote, ''all_dns'')
        (VStr ''example.com'') example_world))) ''all_dns'') =
     [[(''zone'', VStr ''example.com''), (''fqdn'', VStr ''a.example.com'')]] \<and>
   filter (\<lambda>d. \<not> in_zone (VStr ''example.com'') d)
     (colls (remote (snd (update_all_dns_zone (Primary, ''all_dns'') (Remote, ''all_dns'')
        (VStr ''example.com'') example_world))) ''all_dns'') =
     [[(''zone'', VStr ''other.org''), (''fqdn'', VStr ''old.other.org'')]] \<and>
   fst (update_all_dns Primary Remote [VStr ''example.com'', VStr ''other.org''] example_world) =
     Inr () \<and>
   filter is_remove (new_events example_world
     (snd (update_all_dns Primary Remote [VStr ''example.com'', VStr ''other.org''] example_world))) =
     [(Remote, ''all_dns'', Remove [(''zone'', VStr ''example.com'')]),
      (Remote, ''all_dns'', Remove [(''zone'', VStr ''other.org'')])] \<and>
   distinct (filter is_remove (new_events example_world
     (snd (update_all_dns Primary Remote [VStr ''example.com'', VStr ''other.org''] example_world)))) \<and>
   filter (in_zone (VStr ''other.org''))
     (colls (remote (snd (update_all_dns Primary Remote [VStr ''example.com'', VStr ''other.org'']
        example_world))) ''all_dns'') =
     [[(''zone'', VStr ''other.org''), (''fqdn'', VStr ''b.other.org'')]]"
proof -
  let ?one = "update_all_dns_zone (Primary, ''all_dns'') (Remote, ''all_dns'') (VStr ''example.com'')"
  let ?all = "update_all_dns Primary Remote [VStr ''example.com'', VStr ''other.org'']"
  have ok: "fst (?one example_world) = Inr ()" "fst (?all example_world) = Inr ()"
    by (simp_all add: update_all_dns_def update_all_dns_zone_def get_all_dns_connection_def
        batch_size_def eval_defs in_zone_def)
  have src:
    "colls (primary example_world) ''all_dns'' =
       [[(''_id'', VInt 9), (''zone'', VStr ''example.com''), (''fqdn'', VStr ''a.example.com'')],
        [(''_id'', VInt 10), (''zone'', VStr ''other.org''), (''fqdn'', VStr ''b.other.org'')]]"
    "colls (remote example_world) ''all_dns'' =
       [[(''zone'', VStr ''example.com''), (''fqdn'', VStr ''old.example.com'')],
        [(''zone'', VStr ''other.org''), (''fqdn'', VStr ''old.other.org'')]]"
    by (simp_all add: example_world_def example_primary_def example_remote_def world_of_def
        store_of_def)
  note inst = dns_zone_by_zone
      [of "VStr ''example.com''" example_world "snd (?one example_world)" "[]" "[]"
          "[VStr ''example.com'', VStr ''other.org'']" "snd (?all example_world)"]
  note one = inst [THEN conjunct1, rule_format, OF ok(1) [THEN pair_collapse]]
  note all = inst [THEN conjunct2, THEN conjunct2, rule_format, OF ok(2) [THEN pair_collapse]]
  show ?thesis
    using one all by (simp add: ok src in_zone_def strip_id_def)
qed

lemma all_dns_empty:
  "update_all_dns mongo_connector rm_connector [] w = (Inr (), w)"
  by (simp add: update_all_dns_def Let_def)

text \<open>
  Claim C10. With an empty zone list the DNS step returns at once: the world is
  unchanged, no operation has been sent to either store, and the remote DNS collection
  is as it was.
\<close>

theorem update_all_dns_empty_zone_list:
  "update_all_dns mongo_connector rm_connector [] w = (Inr (), w) \<and>
   new_events w (snd (update_all_dns mongo_connector rm_connector [] w)) = [] \<and>
   colls (remote (snd (update_all_dns mongo_connector rm_connector [] w))) ''all_dns'' =
     colls (remote w) ''all_dns''"
  by (simp add: update_all_dns_def Let_def new_events_def)

section \<open>Properties of a whole run\<close>

lemma run_invI:
  assumes "oplog w' = oplog w @ d"
    and "list_all (\<lambda>e. target e \<in> set T) d"
    and "list_all is_read (primary_events d)"
    and "colls (primary w') = colls (primary w)"
    and "\<And>n. (Remote, n) \<notin> set T \<Longrightarrow> colls (remote w') n = colls (remote w) n"
    and "script (primary w') = drop (length (primary_events d)) (script (primary w))"
    and "ok \<Longrightarrow> list_all (\<lambda>f. f = NoFault) (take (length (primary_events d)) (script (primary w)))"
  shows "run_inv T ok w w'"
proof -
  have "new_events w w' = d"
    using assms(1) by (simp add: new_events_def)
  with assms show ?thesis
    by (simp add: run_inv_def)
qed

lemma run_inv_refl: "run_inv T ok w w"
  by (simp add: run_inv_def new_events_def primary_events_def)

lemma run_inv_fail: "run_inv T ok w w' \<Longrightarrow> run_inv T False w w'"
  by (simp add: run_inv_def)

lemma run_inv_mono: "run_inv T ok w w' \<Longrightarrow> set T \<subseteq> set T' \<Longrightarrow> run_inv T' ok w w'"
  by (auto simp: run_inv_def list_all_iff)

lemma run_inv_trans:
  assumes "run_inv T True w w1" and "run_inv T ok w1 w2"
  shows "run_inv T ok w w2"
proof -
  let ?d1 = "new_events w w1" and ?d2 = "new_events w1 w2"
  let ?n1 = "length (primary_events ?d1)" and ?n2 = "length (primary_events ?d2)"
  from assms have log: "oplog w2 = oplog w @ (?d1 @ ?d2)"
    by (simp add: run_inv_def)
  have s1: "script (primary w1) = drop ?n1 (script (primary w))"
    and s2: "script (primary w2) = drop ?n2 (script (primary w1))"
    and f1: "list_all (\<lambda>f. f = NoFault) (take ?n1 (script (primary w)))"
    using assms by (simp_all add: run_inv_def)
  show ?thesis
  proof (rule run_invI [OF log])
    show "list_all (\<lambda>e. target e \<in> set T) (?d1 @ ?d2)"
      and "list_all is_read (primary_events (?d1 @ ?d2))"
      and "colls (primary w2) = colls (primary w)"
      using assms by (simp_all add: run_inv_def primary_events_def)
    show "colls (remote w2) n = colls (remote w) n" if "(Remote, n) \<notin> set T" for n
      using assms that by (simp add: run_inv_def)
    show "script (primary w2) = drop (length (primary_events (?d1 @ ?d2))) (script (primary w))"
      using s1 s2 by (simp add: primary_events_def add.commute)
    show "list_all (\<lambda>f. f = NoFault)
        (take (length (primary_events (?d1 @ ?d2))) (script (primary w)))" if ok
    proof -
      from that assms(2) s1 have f2: "list_all (\<lambda>f. f = NoFault)
          (take ?n2 (drop ?n1 (script (primary w))))"
        by (simp add: run_inv_def)
      have "take (?n1 + ?n2) (script (primary w)) =
          take ?n1 (script (primary w)) @ take ?n2 (drop ?n1 (script (primary w)))"
        by (simp add: take_add)
      with f1 f2 show ?thesis
        by (simp add: primary_events_def)
    qed
  qed
qed

lemma run_inv_and_then:
  assumes "and_then m f = (r, w')"
    and "\<And>r1 w1. m = (r1, w1) \<Longrightarrow> run_inv T (\<not> isl r1) w w1"
    and "\<And>x w1 r2 w2. f x w1 = (r2, w2) \<Longrightarrow> run_inv T (\<not> isl r2) w1 w2"
  shows "run_inv T (\<not> isl r) w w'"
proof (cases m)
  case (Pair r1 w1)
  show ?thesis
  proof (cases r1)
    case (Inl e)
    with Pair assms(1) have "r = Inl e" "w' = w1"
      by simp_all
    with assms(2) [OF Pair] Inl show ?thesis
      by simp
  next
    case (Inr x)
    with Pair assms(1) have "f x w1 = (r, w')"
      by simp
    from assms(3) [OF this] assms(2) [OF Pair] Inr show ?thesis
      by (auto intro: run_inv_trans)
  qed
qed

lemma run_op_remote_inv:
  "run_op (Remote, n) operation w = (r, w') \<Longrightarrow> run_inv [(Remote, n)] (\<not> isl r) w w'"
  by (rule run_invI [where d = "[(Remote, n, operation)]"])
     (auto simp: run_op_def next_fault_def Let_def target_def primary_events_def
        split: list.splits fault.splits prod.splits)

lemma run_op_primary_read_inv:
  "run_op (Primary, n) (Find q p) w = (r, w') \<Longrightarrow> run_inv [(Primary, n)] (\<not> isl r) w w'"
  by (rule run_invI [where d = "[(Primary, n, Find q p)]"])
     (auto simp: run_op_def next_fault_def Let_def target_def primary_events_def is_read_def
        apply_op_def drop_Suc split: list.splits fault.splits prod.splits)

lemma db_remove_inv:
  "db_remove (Remote, n) q w = (r, w') \<Longrightarrow> run_inv [(Remote, n)] (\<not> isl r) w w'"
  unfolding db_remove_def
  by (erule run_inv_and_then) (auto intro: run_op_remote_inv run_inv_refl)

lemma db_insert_inv:
  "db_insert (Remote, n) d w = (r, w') \<Longrightarrow> run_inv [(Remote, n)] (\<not> isl r) w w'"
  unfolding db_insert_def
  by (erule run_inv_and_then) (auto intro: run_op_remote_inv run_inv_refl)

lemma cursor_fetch_inv:
  "cursor_fetch (db_find (Primary, n) q p) w = (r, w') \<Longrightarrow>
   run_inv [(Primary, n)] (\<not> isl r) w w'"
  by (simp add: cursor_fetch_def db_find_def run_op_primary_read_inv)

lemma insert_each_inv:
  "insert_each (Remote, n) ds w = (r, w') \<Longrightarrow> run_inv [(Remote, n)] (\<not> isl r) w w'"
proof (induction ds arbitrary: w r w')
  case Nil
  then show ?case by (auto intro: run_inv_refl)
next
  case (Cons d ds)
  from Cons.prems show ?case
    by (simp, elim run_inv_and_then) (auto intro: db_insert_inv Cons.IH)
qed

lemma full_replace_inv:
  assumes "full_replace (Primary, n) (Remote, n) w = (r, w')"
  shows "run_inv [(Primary, n), (Remote, n)] (\<not> isl r) w w'"
  using assms unfolding full_replace_def
  by (elim run_inv_and_then)
     (auto intro: run_inv_mono [OF db_remove_inv] run_inv_mono [OF cursor_fetch_inv]
        run_inv_mono [OF insert_each_inv])

lemma run_inv_events:
  "run_inv T ok w w' \<Longrightarrow> oplog w' = oplog w @ new_events w w'"
  "run_inv T ok w w' \<Longrightarrow> list_all (\<lambda>e. target e \<in> set T) (new_events w w')"
  by (simp_all add: run_inv_def)

lemma run_op_oplog:
  "run_op h operation w = (r, w') \<Longrightarrow> oplog w' = oplog w @ [(fst h, snd h, operation)]"
  by (cases h; cases "fst h")
     (auto simp: run_op_def next_fault_def Let_def split: list.splits fault.splits prod.splits)

lemma zones_insert_loop_inv:
  "zones_insert_loop (Remote, n) ds zl w = (r, w') \<Longrightarrow> run_inv [(Remote, n)] (\<not> isl r) w w'"
proof (induction ds arbitrary: zl w r w')
  case Nil
  then show ?case by (auto intro: run_inv_refl)
next
  case (Cons d ds)
  from Cons.prems show ?case
    by (simp, elim run_inv_and_then)
       (auto intro: db_insert_inv Cons.IH run_inv_refl split: option.splits)
qed

lemma zones_list_loop_names:
  "zones_list_loop ds zl = Inr zs \<Longrightarrow> zs = zl @ zone_names ds"
proof (induction ds arbitrary: zl)
  case Nil
  then show ?case by (simp add: zone_names_def)
next
  case (Cons d ds)
  from Cons.prems obtain z where
    "map_of d ''zone'' = Some z" "zones_list_loop ds (zl @ [z]) = Inr zs"
    by (auto split: option.splits)
  with Cons.IH [of "zl @ [z]"] show ?case
    by (simp add: zone_names_def)
qed

lemma zones_insert_loop_names:
  "zones_insert_loop h ds zl w = (Inr zs, w') \<Longrightarrow> zs = zl @ zone_names ds"
proof (induction ds arbitrary: zl w)
  case Nil
  then show ?case by (simp add: zone_names_def)
next
  case (Cons d ds)
  from Cons.prems obtain w1 z where
    "map_of d ''zone'' = Some z" "zones_insert_loop h ds (zl @ [z]) w1 = (Inr zs, w')"
    by (auto simp: and_then_Inr split: option.splits)
  with Cons.IH [of "zl @ [z]" w1] show ?case
    by (simp add: zone_names_def)
qed

lemma zone_names_strip_id [simp]: "zone_names (map strip_id ds) = zone_names ds"
  by (simp add: zone_names_def comp_def map_of_strip_id)

lemma update_zones_inv:
  assumes "update_zones Primary Remote b w = (r, w')"
  shows "run_inv ((Primary, ''zones'') # (if b then [(Remote, ''zones'')] else [])) (\<not> isl r) w w'"
proof (cases b)
  case True
  with assms show ?thesis
    unfolding update_zones_def Let_def get_zone_connection_def
    by (simp, elim run_inv_and_then)
       (auto intro: run_inv_mono [OF db_remove_inv] run_inv_mono [OF cursor_fetch_inv]
          run_inv_mono [OF zones_insert_loop_inv])
next
  case False
  with assms show ?thesis
    unfolding update_zones_def Let_def get_zone_connection_def
    by (simp, elim run_inv_and_then)
       (auto intro: run_inv_mono [OF cursor_fetch_inv] run_inv_refl)
qed

lemma update_zones_names:
  assumes "update_zones Primary Remote b w = (Inr zs, w')"
  shows "zs = zone_names (colls (primary w) ''zones'')"
proof (cases b)
  case True
  with assms obtain w1 ds w2 where
    rm: "db_remove (Remote, ''zones'') [] w = (Inr (), w1)" and
    rd: "cursor_fetch (db_find (Primary, ''zones'') [] (Some [(''_id'', VInt 0)])) w1 = (Inr ds, w2)" and
    loop: "zones_insert_loop (Remote, ''zones'') ds [] w2 = (Inr zs, w')"
    by (auto simp: update_zones_def Let_def get_zone_connection_def and_then_Inr)
  from db_remove_Inr [OF rm] cursor_fetch_Inr [OF rd] zones_insert_loop_names [OF loop]
  show ?thesis by simp
next
  case False
  with assms obtain ds w1 where
    rd: "cursor_fetch (db_find (Primary, ''zones'') [] (Some [(''_id'', VInt 0)])) w = (Inr ds, w1)" and
    loop: "zones_list_loop ds [] = Inr zs"
    by (auto simp: update_zones_def Let_def get_zone_connection_def and_then_Inr)
  from cursor_fetch_Inr [OF rd] zones_list_loop_names [OF loop]
  show ?thesis by simp
qed

text \<open>The operations of the zone step, whatever its outcome.\<close>

lemma update_zones_events:
  assumes "update_zones Primary Remote b w = (r, w')"
  shows "(b \<and> isl r \<and> new_events w w' = [(Remote, ''zones'', Remove [])]) \<or>
    (\<exists>ins. new_events w w' =
        (if b then [(Remote, ''zones'', Remove [])] else []) @ zones_read # ins \<and>
      list_all (\<lambda>e. target e = (Remote, ''zones'')) ins)"
proof (cases b)
  case False
  obtain r1 w1 where rd:
    "run_op (Primary, ''zones'') (Find [] (Some [(''_id'', VInt 0)])) w = (r1, w1)"
    by (cases "run_op (Primary, ''zones'') (Find [] (Some [(''_id'', VInt 0)])) w")
  with assms False have "w' = w1"
    by (cases r1)
       (auto simp: update_zones_def Let_def get_zone_connection_def cursor_fetch_def db_find_def)
  with run_op_oplog [OF rd] have "new_events w w' = [zones_read]"
    by (simp add: new_events_def zones_read_def)
  with False show ?thesis by simp
next
  case True
  obtain r1 w1 where rm: "run_op (Remote, ''zones'') (Remove []) w = (r1, w1)"
    by (cases "run_op (Remote, ''zones'') (Remove []) w")
  note log1 = run_op_oplog [OF rm]
  show ?thesis
  proof (cases r1)
    case (Inl e)
    with assms True rm have "r = Inl e" "w' = w1"
      by (auto simp: update_zones_def Let_def get_zone_connection_def db_remove_def)
    with log1 True show ?thesis
      by (simp add: new_events_def)
  next
    case (Inr a)
    obtain r2 w2 where rd:
      "run_op (Primary, ''zones'') (Find [] (Some [(''_id'', VInt 0)])) w1 = (r2, w2)"
      by (cases "run_op (Primary, ''zones'') (Find [] (Some [(''_id'', VInt 0)])) w1")
    note log2 = run_op_oplog [OF rd]
    show ?thesis
    proof (cases r2)
      case (Inl e)
      with assms True rm rd Inr have "w' = w2"
        by (auto simp: update_zones_def Let_def get_zone_connection_def db_remove_def
            cursor_fetch_def db_find_def)
      with log1 log2 have "new_events w w' = [(Remote, ''zones'', Remove [])] @ zones_read # []"
        by (simp add: new_events_def zones_read_def)
      with True show ?thesis by auto
    next
      case ds: (Inr ds)
      with assms True rm rd Inr have "zones_insert_loop (Remote, ''zones'') ds [] w2 = (r, w')"
        by (auto simp: update_zones_def Let_def get_zone_connection_def db_remove_def
            cursor_fetch_def db_find_def)
      from zones_insert_loop_inv [OF this] have
        "oplog w' = oplog w2 @ new_events w2 w'"
        "list_all (\<lambda>e. target e \<in> set [(Remote, ''zones'')]) (new_events w2 w')"
        by (simp_all add: run_inv_def)
      with log1 log2 have
        "new_events w w' = [(Remote, ''zones'', Remove [])] @ zones_read # new_events w2 w'"
        "list_all (\<lambda>e. target e = (Remote, ''zones'')) (new_events w2 w')"
        by (simp_all add: new_events_def [of w w'] zones_read_def)
      with True show ?thesis by auto
    qed
  qed
qed

lemma all_dns_zone_inv:
  assumes "update_all_dns_zone (Primary, ''all_dns'') (Remote, ''all_dns'') z w = (r, w')"
  shows "run_inv [(Primary, ''all_dns''), (Remote, ''all_dns'')] (\<not> isl r) w w'"
  using assms unfolding update_all_dns_zone_def Let_def
  by (simp, elim run_inv_and_then)
     (auto intro: run_inv_mono [OF db_remove_inv] run_inv_mono [OF cursor_fetch_inv]
        run_inv_mono [OF insert_each_inv])

lemma all_dns_loop_inv:
  "all_dns_loop (Primary, ''all_dns'') (Remote, ''all_dns'') zs w = (r, w') \<Longrightarrow>
   run_inv [(Primary, ''all_dns''), (Remote, ''all_dns'')] (\<not> isl r) w w'"
proof (induction zs arbitrary: w r w')
  case Nil
  then show ?case by (auto intro: run_inv_refl)
next
  case (Cons z zs)
  from Cons.prems show ?case
    by (simp, elim run_inv_and_then) (auto intro: all_dns_zone_inv Cons.IH)
qed

lemma update_all_dns_inv:
  "update_all_dns Primary Remote zs w = (r, w') \<Longrightarrow>
   run_inv [(Primary, ''all_dns''), (Remote, ''all_dns'')] (\<not> isl r) w w'"
  by (simp add: update_all_dns_def Let_def get_all_dns_connection_def all_dns_loop_inv)

lemma update_ip_zones_inv:
  assumes "update_ip_zones Primary Remote w = (r, w')"
  shows "run_inv [(Primary, ''ip_zones''), (Remote, ''ip_zones''),
                  (Primary, ''ipv6_zones''), (Remote, ''ipv6_zones'')] (\<not> isl r) w w'"
  using assms unfolding update_ip_zones_eq
  by (elim run_inv_and_then) (auto intro: run_inv_mono [OF full_replace_inv])

lemma run_inv_job [simp]:
  "run_inv T ok (w\<lparr>job := j\<rparr>) w' = run_inv T ok w w'"
  "run_inv T ok w (w'\<lparr>job := j\<rparr>) = run_inv T ok w w'"
  by (simp_all add: run_inv_def new_events_def)

lemma when_inv:
  assumes "(if c then step w else skip w) = (r, w')"
    and "\<And>r w'. step w = (r, w') \<Longrightarrow> run_inv T (\<not> isl r) w w'"
  shows "run_inv T (\<not> isl r) w w'"
  using assms by (auto simp: skip_def intro: run_inv_refl split: if_splits)

lemma third_party_inv:
  assumes "and_then (update_aws_cidrs Primary Remote w) (\<lambda>_ w3.
           and_then (update_azure_cidrs Primary Remote w3) (\<lambda>_ w4.
           and_then (update_akamai_cidrs Primary Remote w4) (\<lambda>_ w5.
             update_gcp_cidrs Primary Remote w5))) = (r, w')"
  shows "run_inv middle_handles (\<not> isl r) w w'"
  using assms unfolding full_replace_steps
  by (elim run_inv_and_then)
     (auto intro!: run_inv_mono [OF full_replace_inv] simp: middle_handles_def)

lemma ip_zones_middle_inv:
  "update_ip_zones Primary Remote w = (r, w') \<Longrightarrow> run_inv middle_handles (\<not> isl r) w w'"
  by (drule update_ip_zones_inv, erule run_inv_mono) (simp add: middle_handles_def)

lemma config_middle_inv:
  "update_config Primary Remote w = (r, w') \<Longrightarrow> run_inv middle_handles (\<not> isl r) w w'"
  unfolding full_replace_steps
  by (drule full_replace_inv, erule run_inv_mono) (simp add: middle_handles_def)

text \<open>The run after the zone step.\<close>

lemma main_unfold:
  "main argc args w =
     and_then (update_zones Primary Remote (argc = 1 \<or> send_zones args) (record_job_start w))
       (\<lambda>zone_list w1.
     and_then (if argc = 1 \<or> send_ip_zones args then update_ip_zones Primary Remote w1 else skip w1)
       (\<lambda>_ w2.
     and_then
       (if argc = 1 \<or> send_third_party_zones args
        then and_then (update_aws_cidrs Primary Remote w2) (\<lambda>_ w3.
             and_then (update_azure_cidrs Primary Remote w3) (\<lambda>_ w4.
             and_then (update_akamai_cidrs Primary Remote w4) (\<lambda>_ w5.
               update_gcp_cidrs Primary Remote w5)))
        else skip w2)
       (\<lambda>_ w6.
     and_then (if argc = 1 \<or> send_config args then update_config Primary Remote w6 else skip w6)
       (\<lambda>_ w7.
     and_then
       (if argc = 1 \<or> send_dns_records args
        then update_all_dns Primary Remote zone_list w7 else skip w7)
       (\<lambda>_ w8. (Inr (), record_job_complete w8))))))"
  by (simp add: main_def Let_def)

lemma main_cases:
  assumes "main argc args w = (r, w')"
  obtains (zones_failed) e where
      "update_zones Primary Remote (argc = 1 \<or> send_zones args) (record_job_start w) = (Inl e, w')"
      "r = Inl e"
    | (zones_done) zone_list w1 where
      "update_zones Primary Remote (argc = 1 \<or> send_zones args) (record_job_start w) =
         (Inr zone_list, w1)"
      "run_inv (middle_handles @ dns_handles) (\<not> isl r) w1 w'"
proof (cases "update_zones Primary Remote (argc = 1 \<or> send_zones args) (record_job_start w)")
  case (Pair r1 w1)
  show ?thesis
  proof (cases r1)
    case (Inl e)
    with Pair assms have "r = Inl e" "w' = w1"
      by (simp_all add: main_unfold)
    with Pair Inl show ?thesis
      by (intro zones_failed) simp_all
  next
    case (Inr zone_list)
    with Pair assms have rest:
      "and_then (if argc = 1 \<or> send_ip_zones args then update_ip_zones Primary Remote w1 else skip w1)
         (\<lambda>_ w2.
       and_then
         (if argc = 1 \<or> send_third_party_zones args
          then and_then (update_aws_cidrs Primary Remote w2) (\<lambda>_ w3.
               and_then (update_azure_cidrs Primary Remote w3) (\<lambda>_ w4.
               and_then (update_akamai_cidrs Primary Remote w4) (\<lambda>_ w5.
                 update_gcp_cidrs Primary Remote w5)))
          else skip w2)
         (\<lambda>_ w6.
       and_then (if argc = 1 \<or> send_config args then update_config Primary Remote w6 else skip w6)
         (\<lambda>_ w7.
       and_then
         (if argc = 1 \<or> send_dns_records args
          then update_all_dns Primary Remote zone_list w7 else skip w7)
         (\<lambda>_ w8. (Inr (), record_job_complete w8))))) = (r, w')"
      by (simp add: main_unfold)
    have "run_inv (middle_handles @ dns_handles) (\<not> isl r) w1 w'"
    proof (rule run_inv_and_then [OF rest], goal_cases)
      case (1 r1 wa)
      then show ?case
        by (elim when_inv) (drule ip_zones_middle_inv, erule run_inv_mono, simp)
    next
      case (2 x wa r2 wb)
      then show ?case
      proof (rule run_inv_and_then, goal_cases)
        case (1 r1 wc)
        then show ?case
          by (elim when_inv) (drule third_party_inv, erule run_inv_mono, simp)
      next
        case (2 x wc r2 wd)
        then show ?case
        proof (rule run_inv_and_then, goal_cases)
          case (1 r1 we)
          then show ?case
            by (elim when_inv) (drule config_middle_inv, erule run_inv_mono, simp)
        next
          case (2 x we r2 wf)
          then show ?case
          proof (rule run_inv_and_then, goal_cases)
            case (1 r1 wg)
            then show ?case
              by (elim when_inv)
                 (drule update_all_dns_inv, erule run_inv_mono, simp add: dns_handles_def)
          next
            case (2 x wg r2 wh)
            then show ?case
              by (auto simp: record_job_complete_def intro: run_inv_refl)
          qed
        qed
      qed
    qed
    with Pair Inr show ?thesis
      by (intro zones_done) simp_all
  qed
qed

lemma main_inv:
  assumes "main argc args w = (r, w')"
  shows "run_inv (zone_handles (argc = 1 \<or> send_zones args) @ middle_handles @ dns_handles)
           (\<not> isl r) w w'"
  using assms
proof (cases rule: main_cases)
  case (zones_failed e)
  from update_zones_inv [OF zones_failed(1)] zones_failed(2) show ?thesis
    by (auto simp: record_job_start_def zone_handles_def intro: run_inv_mono)
next
  case (zones_done zone_list w1)
  from update_zones_inv [OF zones_done(1)]
  have "run_inv (zone_handles (argc = 1 \<or> send_zones args) @ middle_handles @ dns_handles)
      True w w1"
    by (auto simp: record_job_start_def zone_handles_def intro: run_inv_mono)
  moreover have "run_inv (zone_handles (argc = 1 \<or> send_zones args) @ middle_handles @ dns_handles)
      (\<not> isl r) w1 w'"
    using zones_done(2) by (rule run_inv_mono) auto
  ultimately show ?thesis
    by (rule run_inv_trans)
qed

lemma filter_target_outside:
  "list_all (\<lambda>e. target e \<in> set T) d \<Longrightarrow> h \<notin> set T \<Longrightarrow> filter (\<lambda>e. P e \<and> target e = h) d = []"
  by (induction d) auto

lemma filter_target_outside':
  "list_all (\<lambda>e. target e \<in> set T) d \<Longrightarrow> h \<notin> set T \<Longrightarrow> filter (\<lambda>e. target e = h) d = []"
  by (induction d) auto

lemma primary_events_remote:
  "list_all (\<lambda>e. target e = (Remote, n)) d \<Longrightarrow> primary_events d = []"
  by (induction d) (auto simp: primary_events_def target_def)

lemma filter_target_other:
  "list_all (\<lambda>e. target e = h') d \<Longrightarrow> h \<noteq> h' \<Longrightarrow> filter (\<lambda>e. target e = h) d = []"
  by (induction d) auto

lemma main_events:
  assumes "main argc args w = (r, w')"
  shows "\<exists>dz dr. new_events w w' = dz @ dr \<and>
      list_all (\<lambda>e. target e \<in> set (middle_handles @ dns_handles)) dr \<and>
      (((argc = 1 \<or> send_zones args) \<and> isl r \<and> dz = [(Remote, ''zones'', Remove [])] \<and> dr = []) \<or>
       (\<exists>ins. dz = (if argc = 1 \<or> send_zones args then [(Remote, ''zones'', Remove [])] else []) @
                   zones_read # ins \<and>
              list_all (\<lambda>e. target e = (Remote, ''zones'')) ins))"
  using assms
proof (cases rule: main_cases)
  case (zones_failed e)
  have ne: "new_events w w' = new_events (record_job_start w) w'"
    by (simp add: new_events_def record_job_start_def)
  from update_zones_events [OF zones_failed(1)] zones_failed(2) show ?thesis
    by (intro exI [of _ "new_events w w'"] exI [of _ "[]"]) (auto simp: ne)
next
  case (zones_done zone_list w1)
  have ne: "new_events w w1 = new_events (record_job_start w) w1"
    by (simp add: new_events_def record_job_start_def)
  from update_zones_inv [OF zones_done(1)] have "oplog w1 = oplog w @ new_events w w1"
    by (simp add: run_inv_def record_job_start_def new_events_def)
  moreover from zones_done(2) have "oplog w' = oplog w1 @ new_events w1 w'"
    and dr: "list_all (\<lambda>e. target e \<in> set (middle_handles @ dns_handles)) (new_events w1 w')"
    by (simp_all add: run_inv_def)
  ultimately have "new_events w w' = new_events w w1 @ new_events w1 w'"
    by (simp add: new_events_def [of w w'])
  with update_zones_events [OF zones_done(1)] dr show ?thesis
    by (intro exI [of _ "new_events w w1"] exI [of _ "new_events w1 w'"]) (auto simp: ne)
qed

lemma main_success:
  assumes "main argc args w = (Inr (), w')"
  shows "\<exists>zone_list w1 w7 w8.
      update_zones Primary Remote (argc = 1 \<or> send_zones args) (record_job_start w) =
        (Inr zone_list, w1) \<and>
      run_inv middle_handles True w1 w7 \<and>
      (if argc = 1 \<or> send_dns_records args
       then update_all_dns Primary Remote zone_list w7 else skip w7) = (Inr (), w8) \<and>
      w' = record_job_complete w8"
proof -
  from assms obtain zone_list w1 w2 w6 w7 w8 where
    z: "update_zones Primary Remote (argc = 1 \<or> send_zones args) (record_job_start w) =
        (Inr zone_list, w1)" and
    ip: "(if argc = 1 \<or> send_ip_zones args then update_ip_zones Primary Remote w1 else skip w1) =
        (Inr (), w2)" and
    tp: "(if argc = 1 \<or> send_third_party_zones args
        then and_then (update_aws_cidrs Primary Remote w2) (\<lambda>_ w3.
             and_then (update_azure_cidrs Primary Remote w3) (\<lambda>_ w4.
             and_then (update_akamai_cidrs Primary Remote w4) (\<lambda>_ w5.
               update_gcp_cidrs Primary Remote w5)))
        else skip w2) = (Inr (), w6)" and
    cfg: "(if argc = 1 \<or> send_config args then update_config Primary Remote w6 else skip w6) =
        (Inr (), w7)" and
    dns: "(if argc = 1 \<or> send_dns_records args
       then update_all_dns Primary Remote zone_list w7 else skip w7) = (Inr (), w8)" and
    fin: "w' = record_job_complete w8"
    unfolding main_unfold and_then_Inr by auto
  from ip have 1: "run_inv middle_handles (\<not> isl (Inr () :: exn + unit)) w1 w2"
    by (elim when_inv) (rule ip_zones_middle_inv)
  from tp have 2: "run_inv middle_handles (\<not> isl (Inr () :: exn + unit)) w2 w6"
    by (elim when_inv) (rule third_party_inv)
  from cfg have 3: "run_inv middle_handles (\<not> isl (Inr () :: exn + unit)) w6 w7"
    by (elim when_inv) (rule config_middle_inv)
  from 1 2 3 have "run_inv middle_handles True w1 w7"
    by (auto intro: run_inv_trans)
  with z dns fin show ?thesis
    by blast
qed

lemma zone_events_scoped_delete [simp]:
  "filter (\<lambda>e. is_remove e \<and> target e = (Remote, ''all_dns'')) (zone_events z ds) =
   [(Remote, ''all_dns'', Remove [(''zone'', z)])]"
  by (simp add: zone_events_def is_remove_def target_def filter_map comp_def)

lemma scoped_deletes_concat:
  "filter (\<lambda>e. is_remove e \<and> target e = (Remote, ''all_dns''))
     (concat (map (\<lambda>z. zone_events z ds) zs)) =
   map (\<lambda>z. (Remote, ''all_dns'', Remove [(''zone'', z)])) zs"
  by (induction zs) simp_all

lemma main_dns_deletes:
  assumes "main argc args w = (Inr (), w')" and "argc = 1 \<or> send_dns_records args"
  shows "filter (\<lambda>e. is_remove e \<and> target e = (Remote, ''all_dns'')) (new_events w w') =
    map (\<lambda>z. (Remote, ''all_dns'', Remove [(''zone'', z)])) (zone_names (colls (primary w) ''zones''))"
proof -
  from main_success [OF assms(1)] assms(2) obtain zone_list w1 w7 w8 where
    z: "update_zones Primary Remote (argc = 1 \<or> send_zones args) (record_job_start w) =
        (Inr zone_list, w1)" and
    mid: "run_inv middle_handles True w1 w7" and
    dns: "update_all_dns Primary Remote zone_list w7 = (Inr (), w8)" and
    fin: "w' = record_job_complete w8"
    by auto
  note zi = update_zones_inv [OF z]
  have names: "zone_list = zone_names (colls (primary w) ''zones'')"
    using update_zones_names [OF z] by (simp add: record_job_start_def)
  from dns have "all_dns_loop (Primary, ''all_dns'') (Remote, ''all_dns'') zone_list w7 = (Inr (), w8)"
    by (simp add: update_all_dns_def Let_def get_all_dns_connection_def)
  note d = all_dns_loop_Inr [OF this]
  have l1: "oplog w1 = oplog w @ new_events (record_job_start w) w1"
    and t1: "list_all (\<lambda>e. target e \<in> set (zone_handles (argc = 1 \<or> send_zones args)))
        (new_events (record_job_start w) w1)"
    using zi by (simp_all add: run_inv_def record_job_start_def zone_handles_def)
  have l2: "oplog w7 = oplog w1 @ new_events w1 w7"
    and t2: "list_all (\<lambda>e. target e \<in> set middle_handles) (new_events w1 w7)"
    using mid by (simp_all add: run_inv_def)
  have "new_events w w' = new_events (record_job_start w) w1 @ new_events w1 w7 @
      concat (map (\<lambda>z. zone_events z (colls (primary w7) ''all_dns'')) zone_list)"
  proof (rule new_events_append)
    show "oplog w' = oplog w @ new_events (record_job_start w) w1 @ new_events w1 w7 @
        concat (map (\<lambda>z. zone_events z (colls (primary w7) ''all_dns'')) zone_list)"
      using l1 l2 d fin by (simp add: record_job_complete_def)
  qed
  moreover have "(Remote, ''all_dns'') \<notin> set (zone_handles (argc = 1 \<or> send_zones args))"
    "(Remote, ''all_dns'') \<notin> set middle_handles"
    by (simp_all add: zone_handles_def middle_handles_def)
  ultimately show ?thesis
    using t1 t2 by (simp add: filter_target_outside scoped_deletes_concat names)
qed

text \<open>
  Claim C6. In every run of \<open>main\<close>, whatever its flags and however it ends, the primary
  Zone collection is read exactly once (but for a run that the remote store aborts at
  its very first operation, the delete of the remote zones, before anything is read),
  and no operation on a DNS collection of either store comes before that read. The
  list is not changed afterwards: in a completed run with DNS mirroring selected, the
  scoped deletes sent to the remote DNS collection are, in order, those of the zone
  names of the primary Zone collection. When zone mirroring is not selected, the read
  of the primary Zone collection is still the first operation of the run, no operation
  at all is sent to the remote Zone collection, and that collection is unchanged.
\<close>

theorem zone_list_once_before_dns:
  "main argc args w = (r, w') \<longrightarrow>
     (filter (\<lambda>e. target e = (Primary, ''zones'')) (new_events w w') = [zones_read] \<or>
      isl r \<and> new_events w w' = [(Remote, ''zones'', Remove [])]) \<and>
     list_all (\<lambda>e. snd (target e) \<noteq> ''all_dns'')
       (takeWhile (\<lambda>e. e \<noteq> zones_read) (new_events w w')) \<and>
     (r = Inr () \<longrightarrow>
        filter (\<lambda>e. target e = (Primary, ''zones'')) (new_events w w') = [zones_read]) \<and>
     (r = Inr () \<and> (argc = 1 \<or> send_dns_records args) \<longrightarrow>
        filter (\<lambda>e. is_remove e \<and> target e = (Remote, ''all_dns'')) (new_events w w') =
          map (\<lambda>z. (Remote, ''all_dns'', Remove [(''zone'', z)]))
            (zone_names (colls (primary w) ''zones''))) \<and>
     (\<not> (argc = 1 \<or> send_zones args) \<longrightarrow>
        take 1 (new_events w w') = [zones_read] \<and>
        list_all (\<lambda>e. target e \<noteq> (Remote, ''zones'')) (new_events w w') \<and>
        colls (remote w') ''zones'' = colls (remote w) ''zones'')"
proof
  assume run: "main argc args w = (r, w')"
  let ?b = "argc = 1 \<or> send_zones args"
  let ?rm = "(Remote, ''zones'', Remove []) :: event"
  from main_events [OF run] obtain dz dr where
    ev: "new_events w w' = dz @ dr" and
    dr: "list_all (\<lambda>e. target e \<in> set (middle_handles @ dns_handles)) dr" and
    shape: "(?b \<and> isl r \<and> dz = [?rm] \<and> dr = []) \<or>
      (\<exists>ins. dz = (if ?b then [?rm] else []) @ zones_read # ins \<and>
         list_all (\<lambda>e. target e = (Remote, ''zones'')) ins)"
    by blast
  have not_zones: "(Primary, ''zones'') \<notin> set (middle_handles @ dns_handles)"
    by (simp add: middle_handles_def dns_handles_def)
  have dr_zones: "filter (\<lambda>e. target e = (Primary, ''zones'')) dr = []"
    using dr not_zones by (rule filter_target_outside')
  have tz: "target zones_read = (Primary, ''zones'')" "target ?rm = (Remote, ''zones'')"
    "zones_read \<noteq> ?rm"
    by (simp_all add: zones_read_def target_def)
  note inv = main_inv [OF run]
  from shape consider
      (failed) "isl r" "dz = [?rm]" "dr = []"
    | (read) ins where "dz = (if ?b then [?rm] else []) @ zones_read # ins"
        "list_all (\<lambda>e. target e = (Remote, ''zones'')) ins"
    by blast
  note split = this
  show "(filter (\<lambda>e. target e = (Primary, ''zones'')) (new_events w w') = [zones_read] \<or>
      isl r \<and> new_events w w' = [(Remote, ''zones'', Remove [])]) \<and>
     list_all (\<lambda>e. snd (target e) \<noteq> ''all_dns'')
       (takeWhile (\<lambda>e. e \<noteq> zones_read) (new_events w w')) \<and>
     (r = Inr () \<longrightarrow>
        filter (\<lambda>e. target e = (Primary, ''zones'')) (new_events w w') = [zones_read]) \<and>
     (r = Inr () \<and> (argc = 1 \<or> send_dns_records args) \<longrightarrow>
        filter (\<lambda>e. is_remove e \<and> target e = (Remote, ''all_dns'')) (new_events w w') =
          map (\<lambda>z. (Remote, ''all_dns'', Remove [(''zone'', z)]))
            (zone_names (colls (primary w) ''zones''))) \<and>
     (\<not> (argc = 1 \<or> send_zones args) \<longrightarrow>
        take 1 (new_events w w') = [zones_read] \<and>
        list_all (\<lambda>e. target e \<noteq> (Remote, ''zones'')) (new_events w w') \<and>
        colls (remote w') ''zones'' = colls (remote w) ''zones'')"
  proof (intro conjI impI)
    show "filter (\<lambda>e. target e = (Primary, ''zones'')) (new_events w w') = [zones_read] \<or>
      isl r \<and> new_events w w' = [(Remote, ''zones'', Remove [])]"
    proof (cases rule: split)
      case failed
      then show ?thesis by (simp add: ev)
    next
      case (read ins)
      then show ?thesis
        by (simp add: ev tz dr_zones filter_target_other)
    qed
    show "list_all (\<lambda>e. snd (target e) \<noteq> ''all_dns'')
       (takeWhile (\<lambda>e. e \<noteq> zones_read) (new_events w w'))"
    proof (cases rule: split)
      case failed
      then show ?thesis by (simp add: ev tz)
    next
      case (read ins)
      then show ?thesis
        using tz(3) by (simp add: ev tz(2))
    qed
    show "filter (\<lambda>e. target e = (Primary, ''zones'')) (new_events w w') = [zones_read]"
      if "r = Inr ()"
    proof (cases rule: split)
      case failed
      with that show ?thesis by simp
    next
      case (read ins)
      then show ?thesis
        by (simp add: ev tz dr_zones filter_target_other)
    qed
    show "filter (\<lambda>e. is_remove e \<and> target e = (Remote, ''all_dns'')) (new_events w w') =
          map (\<lambda>z. (Remote, ''all_dns'', Remove [(''zone'', z)]))
            (zone_names (colls (primary w) ''zones''))"
      if "r = Inr () \<and> (argc = 1 \<or> send_dns_records args)"
    proof (rule main_dns_deletes)
      show "main argc args w = (Inr (), w')"
        using that run by simp
      show "argc = 1 \<or> send_dns_records args"
        using that by blast
    qed
    show "take 1 (new_events w w') = [zones_read]" if "\<not> ?b"
      using shape that by (auto simp: ev)
    show "list_all (\<lambda>e. target e \<noteq> (Remote, ''zones'')) (new_events w w')" if "\<not> ?b"
      using inv that
      by (auto simp: run_inv_def zone_handles_def middle_handles_def dns_handles_def list_all_iff)
    show "colls (remote w') ''zones'' = colls (remote w) ''zones''" if "\<not> ?b"
      using inv that
      by (simp add: run_inv_def zone_handles_def middle_handles_def dns_handles_def)
  qed
qed

text \<open>
  Claim C2, as the code has it. The script never calls the retrying executor: each step
  calls \<^verbatim>\<open>find\<close> on the primary collection handle itself. So in every run each operation
  on the primary store is a read, sent once: it uses up exactly one outcome of the
  store, and a run completes only if every one of these reads succeeded at that single
  attempt (the first of them being the read of the Zone collection). The primary
  collections are left as they were.
\<close>

theorem primary_reads_unretried:
  "main argc args w = (r, w') \<longrightarrow>
     list_all is_read (primary_events (new_events w w')) \<and>
     colls (primary w') = colls (primary w) \<and>
     script (primary w') = drop (length (primary_events (new_events w w'))) (script (primary w)) \<and>
     (r = Inr () \<longrightarrow>
        take 1 (primary_events (new_events w w')) = [zones_read] \<and>
        list_all (\<lambda>f. f = NoFault)
          (take (length (primary_events (new_events w w'))) (script (primary w))))"
proof
  assume run: "main argc args w = (r, w')"
  note inv = main_inv [OF run]
  have first: "take 1 (primary_events (new_events w w')) = [zones_read]" if "r = Inr ()"
  proof -
    from main_events [OF run] that obtain dz dr ins where
      "new_events w w' = dz @ dr"
      "dz = (if argc = 1 \<or> send_zones args then [(Remote, ''zones'', Remove [])] else []) @
         zones_read # ins"
      by auto
    then show ?thesis
      by (simp add: primary_events_def zones_read_def)
  qed
  show "list_all is_read (primary_events (new_events w w')) \<and>
     colls (primary w') = colls (primary w) \<and>
     script (primary w') = drop (length (primary_events (new_events w w'))) (script (primary w)) \<and>
     (r = Inr () \<longrightarrow>
        take 1 (primary_events (new_events w w')) = [zones_read] \<and>
        list_all (\<lambda>f. f = NoFault)
          (take (length (primary_events (new_events w w'))) (script (primary w))))"
    using inv first by (auto simp: run_inv_def)
qed

lemmas main_eval_defs =
  main_def update_zones_def update_ip_zones_def update_config_def update_aws_cidrs_def
  update_azure_cidrs_def update_akamai_cidrs_def update_gcp_cidrs_def update_all_dns_def
  update_all_dns_zone_def batch_size_def skip_def record_job_start_def record_job_complete_def
  get_zone_connection_def get_ipzone_connection_def get_ipv6_zone_connection_def
  get_config_connection_def get_aws_ips_connection_def get_azure_ips_connection_def
  get_akamai_ips_connection_def get_gcp_ips_connection_def get_all_dns_connection_def
  dns_only_def no_flags_def disconnected_world_def in_zone_def eval_defs

theorem zone_list_once_before_dns_witness:
  "fst (main 2 dns_only example_world) = Inr () \<and>
   filter (\<lambda>e. target e = (Primary, ''zones'')) (new_events example_world
     (snd (main 2 dns_only example_world))) = [zones_read] \<and>
   filter (\<lambda>e. is_remove e \<and> target e = (Remote, ''all_dns'')) (new_events example_world
     (snd (main 2 dns_only example_world))) =
     [(Remote, ''all_dns'', Remove [(''zone'', VStr ''example.com'')])] \<and>
   take 1 (new_events example_world (snd (main 2 dns_only example_world))) = [zones_read] \<and>
   colls (remote (snd (main 2 dns_only example_world))) ''zones'' =
     [[(''zone'', VStr ''stale.com'')]]"
proof -
  have ok: "fst (main 2 dns_only example_world) = Inr ()"
    by (simp add: main_eval_defs)
  have flags: "\<not> ((2::nat) = 1 \<or> send_zones dns_only)" "(2::nat) = 1 \<or> send_dns_records dns_only"
    by (simp_all add: dns_only_def)
  have src: "zone_names (colls (primary example_world) ''zones'') = [VStr ''example.com'']"
    "colls (remote example_world) ''zones'' = [[(''zone'', VStr ''stale.com'')]]"
    by (simp_all add: zone_names_def example_world_def example_primary_def example_remote_def
        world_of_def store_of_def)
  note inst = zone_list_once_before_dns
    [of 2 dns_only example_world "Inr ()" "snd (main 2 dns_only example_world)", rule_format,
     OF ok [THEN pair_collapse]]
  show ?thesis
    using inst flags by (simp add: ok src)
qed

theorem primary_reads_unretried_witness:
  "fst (main 2 dns_only example_world) = Inr () \<and>
   take 1 (primary_events (new_events example_world (snd (main 2 dns_only example_world)))) =
     [zones_read] \<and>
   list_all is_read
     (primary_events (new_events example_world (snd (main 2 dns_only example_world)))) \<and>
   colls (primary (snd (main 2 dns_only example_world))) ''zones'' =
     [[(''_id'', VInt 1), (''zone'', VStr ''example.com'')]]"
proof -
  have ok: "fst (main 2 dns_only example_world) = Inr ()"
    by (simp add: main_eval_defs)
  have src: "colls (primary example_world) ''zones'' =
      [[(''_id'', VInt 1), (''zone'', VStr ''example.com'')]]"
    by (simp add: example_world_def example_primary_def world_of_def store_of_def)
  note inst = primary_reads_unretried
    [of 2 dns_only example_world "Inr ()" "snd (main 2 dns_only example_world)", rule_format,
     OF ok [THEN pair_collapse]]
  show ?thesis
    using inst by (simp add: ok src)
qed

text \<open>
  Claim C2 as stated fails: with a primary store whose next operation is a transient
  disconnect and whose later operations succeed, the run with no flags, and likewise the
  zone step alone, ends with \<open>AutoReconnect\<close> after a single read attempt of the Zone
  collection, where the executor's \<^verbatim>\<open>perform_find\<close> on a collection failing once in the
  same way retries and returns the documents.
\<close>

theorem transient_primary_fault_aborts_counterexample:
  "script (primary disconnected_world) = [Disconnect] \<and>
   fst (main 1 no_flags disconnected_world) = Inl AutoReconnect \<and>
   new_events disconnected_world (snd (main 1 no_flags disconnected_world)) =
     [(Remote, ''zones'', Remove []), zones_read] \<and>
   fst (update_zones Primary Remote False disconnected_world) = Inl AutoReconnect \<and>
   new_events disconnected_world (snd (update_zones Primary Remote False disconnected_world)) =
     [zones_read] \<and>
   fst (perform_find (flaky 1 [[(''zone'', VStr ''example.com'')]]) []
          (Some [(''_id'', VInt 0)]) fresh) = Inr [[(''zone'', VStr ''example.com'')]]"
  by (simp add: main_eval_defs new_events_def zones_read_def perform_find_def flaky_def
      fresh_def retry_loop.simps tick_def sleep_def)

end
